theory Spec2Isabelle
  imports Complex_Main
begin

section \<open>JavaScript values used by the scheduler\<close>

text \<open>
  A JSON number is modelled as a rational (every finite double is one); an absent
  property (\<^verbatim>\<open>undefined\<close>) is \<open>None\<close>.  Truthiness follows JavaScript: a number is
  truthy unless it is zero, a string unless it is empty, \<^verbatim>\<open>undefined\<close> never.
\<close>

definition truthy_num :: "rat option \<Rightarrow> bool" where
  "truthy_num v = (case v of None \<Rightarrow> False | Some n \<Rightarrow> n \<noteq> 0)"

definition truthy_int :: "int option \<Rightarrow> bool" where
  "truthy_int v = (case v of None \<Rightarrow> False | Some n \<Rightarrow> n \<noteq> 0)"

definition truthy_str :: "string option \<Rightarrow> bool" where
  "truthy_str v = (case v of None \<Rightarrow> False | Some s \<Rightarrow> s \<noteq> [])"

definition is_digit :: "char \<Rightarrow> bool" where
  "is_digit c = (48 \<le> (of_char c :: nat) \<and> (of_char c :: nat) \<le> 57)"

definition digit_val :: "char \<Rightarrow> nat" where
  "digit_val c = (of_char c :: nat) - 48"

text \<open>\<^verbatim>\<open>String.prototype.split\<close> with a one-character separator.\<close>

fun js_split :: "char \<Rightarrow> string \<Rightarrow> string list" where
  "js_split sep [] = [[]]"
| "js_split sep (c # cs) =
     (if c = sep then [] # js_split sep cs
      else (case js_split sep cs of p # ps \<Rightarrow> (c # p) # ps | [] \<Rightarrow> [[c]]))"

text \<open>
  \<^verbatim>\<open>Number(s)\<close> on the strings the scheduler feeds it: a run of decimal digits is its
  decimal value (the empty string is 0); \<open>None\<close> stands for \<^verbatim>\<open>NaN\<close>.  The off-hours
  strings have passed \<open>timeRegex\<close> when they are parsed, so only digit runs occur.
\<close>

definition js_Number :: "string \<Rightarrow> nat option" where
  "js_Number s =
     (if list_all is_digit s then Some (foldl (\<lambda>n c. 10 * n + digit_val c) 0 s) else None)"

text \<open>Array destructuring: a missing element is \<^verbatim>\<open>undefined\<close>, which is \<^verbatim>\<open>NaN\<close> in arithmetic.\<close>

definition js_elem :: "nat option list \<Rightarrow> nat \<Rightarrow> nat option" where
  "js_elem xs i = (if i < length xs then xs ! i else None)"

definition js_mul :: "nat option \<Rightarrow> nat option \<Rightarrow> nat option" where
  "js_mul a b = (case a of None \<Rightarrow> None | Some x \<Rightarrow> (case b of None \<Rightarrow> None | Some y \<Rightarrow> Some (x * y)))"

definition js_add :: "nat option \<Rightarrow> nat option \<Rightarrow> nat option" where
  "js_add a b = (case a of None \<Rightarrow> None | Some x \<Rightarrow> (case b of None \<Rightarrow> None | Some y \<Rightarrow> Some (x + y)))"

text \<open>Comparisons with \<^verbatim>\<open>NaN\<close> are false.\<close>

definition js_le :: "nat option \<Rightarrow> nat option \<Rightarrow> bool" where
  "js_le a b = (case a of None \<Rightarrow> False | Some x \<Rightarrow> (case b of None \<Rightarrow> False | Some y \<Rightarrow> x \<le> y))"

definition js_lt :: "nat option \<Rightarrow> nat option \<Rightarrow> bool" where
  "js_lt a b = (case a of None \<Rightarrow> False | Some x \<Rightarrow> (case b of None \<Rightarrow> False | Some y \<Rightarrow> x < y))"

section \<open>scheduler.js: the off-hours window\<close>

text \<open>\<^verbatim>\<open>this.offHours = { start: "HH:MM", end: "HH:MM" }\<close>, or \<^verbatim>\<open>null\<close> (\<open>None\<close>).\<close>

record off_hours =
  oh_start :: string
  oh_end :: string

text \<open>
  \<^verbatim>\<open>/^([01]?[0-9]|2[0-3]):([0-5][0-9])$/\<close>: one digit, or 0/1 and a digit, or 2 and one of
  0..3; a colon; one of 0..5 and a digit.  Without the \<^verbatim>\<open>m\<close> flag the anchors are the ends
  of the string.
\<close>

fun timeRegex :: "string \<Rightarrow> bool" where
  "timeRegex [h, c, m1, m2] =
     (is_digit h \<and> c = CHR '':'' \<and> is_digit m1 \<and> (of_char m1 :: nat) \<le> 53 \<and> is_digit m2)"
| "timeRegex [h1, h2, c, m1, m2] =
     (((h1 = CHR ''0'' \<or> h1 = CHR ''1'') \<and> is_digit h2
        \<or> h1 = CHR ''2'' \<and> is_digit h2 \<and> (of_char h2 :: nat) \<le> 51)
      \<and> c = CHR '':'' \<and> is_digit m1 \<and> (of_char m1 :: nat) \<le> 53 \<and> is_digit m2)"
| "timeRegex _ = False"

text \<open>
  \<^verbatim>\<open>isOffHours()\<close>.  The second argument is the local wall clock,
  \<^verbatim>\<open>(now.getHours(), now.getMinutes())\<close>.
\<close>

definition isOffHours :: "off_hours option \<Rightarrow> nat \<times> nat \<Rightarrow> bool" where
  "isOffHours offHours now =
     (case offHours of
        None \<Rightarrow> False
      | Some w \<Rightarrow>
          (let currentMinutes = Some (fst now * 60 + snd now);
               st = map js_Number (js_split CHR '':'' (oh_start w));
               en = map js_Number (js_split CHR '':'' (oh_end w));
               startMinutes = js_add (js_mul (js_elem st 0) (Some 60)) (js_elem st 1);
               endMinutes = js_add (js_mul (js_elem en 0) (Some 60)) (js_elem en 1)
           in if js_le startMinutes endMinutes
              then js_le startMinutes currentMinutes \<and> js_lt currentMinutes endMinutes
              else js_le startMinutes currentMinutes \<or> js_lt currentMinutes endMinutes))"

text \<open>
  The minute of the day that a validated \<^verbatim>\<open>H:MM\<close> or \<^verbatim>\<open>HH:MM\<close> text denotes, read off
  its digits: the specification's ``start and end as minute-of-day values''.
\<close>

fun minute_of_day :: "string \<Rightarrow> nat" where
  "minute_of_day [h, c, m1, m2] = 60 * digit_val h + (10 * digit_val m1 + digit_val m2)"
| "minute_of_day [h1, h2, c, m1, m2] =
     60 * (10 * digit_val h1 + digit_val h2) + (10 * digit_val m1 + digit_val m2)"
| "minute_of_day _ = 0"

section \<open>scheduler.js: configuration\<close>

text \<open>
  One entry of \<^verbatim>\<open>config.screenshots\<close>.  A field holds the JSON type the README documents
  for it; \<open>None\<close> is an absent property.  \<open>c_viewport\<close> is the optional nested
  \<^verbatim>\<open>{width, height}\<close> object, \<open>c_width\<close> and \<open>c_height\<close> the flat fields.
\<close>

record viewport_cfg =
  vp_width :: "rat option"
  vp_height :: "rat option"

record screenshot_config =
  c_name :: "string option"
  c_path :: "string option"
  c_viewport :: "viewport_cfg option"
  c_width :: "rat option"
  c_height :: "rat option"
  c_interval :: "rat option"
  c_wait :: "rat option"
  c_eink :: "rat option"
  c_invert :: "bool option"
  c_zoom :: "rat option"
  c_format :: "string option"
  c_rotate :: "rat option"
  c_lang :: "string option"
  c_theme :: "string option"
  c_dark :: "bool option"

record off_hours_cfg =
  cfg_start :: "string option"
  cfg_end :: "string option"

text \<open>\<open>screenshots = None\<close>: the property is missing or is not an array.\<close>

record config =
  screenshots :: "screenshot_config list option"
  off_hours :: "off_hours_cfg option"

text \<open>The \<^verbatim>\<open>throw new Error(...)\<close> sites of \<^verbatim>\<open>loadConfig\<close>, one constructor each.\<close>

datatype config_error =
    NoScreenshotsArray
  | OffHoursMissingStartEnd
  | InvalidOffHoursStart string
  | InvalidOffHoursEnd string
  | MissingName nat
  | MissingPath string
  | MissingViewport string
  | ViewportMissingWidthHeight string
  | InvalidInterval string

text \<open>The body of the \<^verbatim>\<open>forEach\<close> callback: validates and normalises one entry.\<close>

definition validate_screenshot :: "nat \<Rightarrow> screenshot_config \<Rightarrow> config_error + screenshot_config" where
  "validate_screenshot index screenshot =
     (if \<not> truthy_str (c_name screenshot) then Inl (MissingName index)
      else if \<not> truthy_str (c_path screenshot) then Inl (MissingPath (the (c_name screenshot)))
      else
        (case (case c_viewport screenshot of
                 Some v \<Rightarrow> Inr screenshot
               | None \<Rightarrow>
                   if truthy_num (c_width screenshot) \<and> truthy_num (c_height screenshot)
                   then Inr (screenshot\<lparr>c_viewport :=
                          Some \<lparr>vp_width = c_width screenshot, vp_height = c_height screenshot\<rparr>\<rparr>)
                   else Inl (MissingViewport (the (c_name screenshot)))) of
           Inl e \<Rightarrow> Inl e
         | Inr screenshot' \<Rightarrow>
             if \<not> truthy_num (vp_width (the (c_viewport screenshot')))
                \<or> \<not> truthy_num (vp_height (the (c_viewport screenshot')))
             then Inl (ViewportMissingWidthHeight (the (c_name screenshot')))
             else if \<not> truthy_num (c_interval screenshot') \<or> the (c_interval screenshot') < 1
             then Inl (InvalidInterval (the (c_name screenshot')))
             else Inr screenshot'))"

text \<open>\<^verbatim>\<open>config.screenshots.forEach((screenshot, index) => ...)\<close>: the first throw ends it.\<close>

fun validate_each :: "nat \<Rightarrow> screenshot_config list \<Rightarrow> config_error + screenshot_config list" where
  "validate_each index [] = Inr []"
| "validate_each index (x # xs) =
     (case validate_screenshot index x of
        Inl e \<Rightarrow> Inl e
      | Inr x' \<Rightarrow>
          (case validate_each (Suc index) xs of
             Inl e \<Rightarrow> Inl e
           | Inr xs' \<Rightarrow> Inr (x' # xs')))"

text \<open>The off-hours block of \<^verbatim>\<open>loadConfig\<close>: \<open>Inr None\<close> when \<^verbatim>\<open>config.off_hours\<close> is absent.\<close>

definition validate_off_hours :: "off_hours_cfg option \<Rightarrow> config_error + off_hours option" where
  "validate_off_hours oh =
     (case oh of
        None \<Rightarrow> Inr None
      | Some w \<Rightarrow>
          if \<not> truthy_str (cfg_start w) \<or> \<not> truthy_str (cfg_end w) then Inl OffHoursMissingStartEnd
          else if \<not> timeRegex (the (cfg_start w)) then Inl (InvalidOffHoursStart (the (cfg_start w)))
          else if \<not> timeRegex (the (cfg_end w)) then Inl (InvalidOffHoursEnd (the (cfg_end w)))
          else Inr (Some \<lparr>oh_start = the (cfg_start w), oh_end = the (cfg_end w)\<rparr>))"

text \<open>
  A timer of the event loop: \<^verbatim>\<open>setTimeout\<close> (the staggered first capture) or
  \<^verbatim>\<open>setInterval\<close> (the recurring capture), with its delay in milliseconds and the job it
  fires.
\<close>

datatype timer_kind = Timeout | Interval

record timer =
  t_id :: nat
  t_kind :: timer_kind
  t_delay :: rat
  t_job :: screenshot_config

text \<open>An entry of \<^verbatim>\<open>this.jobs\<close>: \<^verbatim>\<open>{config, timerId}\<close>.\<close>

record job =
  job_config :: screenshot_config
  timerId :: nat

text \<open>
  The \<^verbatim>\<open>ScreenshotScheduler\<close> object together with the timers it has armed.  \<open>jobs\<close> is the
  \<^verbatim>\<open>Map\<close> from job name to \<^verbatim>\<open>{config, timerId}\<close>; \<open>started\<close> lists the captures that
  \<^verbatim>\<open>scheduleJob\<close> launched at once (no startup delay), \<open>warnings\<close> the names it skipped
  as duplicates.
\<close>

record scheduler =
  jobs :: "string \<rightharpoonup> job"
  isShuttingDown :: bool
  offHours :: "off_hours option"
  timers :: "timer list"
  next_timer :: nat
  started :: "screenshot_config list"
  warnings :: "string list"

text \<open>\<^verbatim>\<open>loadConfig()\<close> for a configuration object that is already parsed.\<close>

definition loadConfig :: "scheduler \<Rightarrow> config \<Rightarrow> (config_error + config) \<times> scheduler" where
  "loadConfig s cfg =
     (case screenshots cfg of
        None \<Rightarrow> (Inl NoScreenshotsArray, s)
      | Some shots \<Rightarrow>
          (case validate_off_hours (off_hours cfg) of
             Inl e \<Rightarrow> (Inl e, s)
           | Inr w \<Rightarrow>
               (let s' = (case w of None \<Rightarrow> s | Some x \<Rightarrow> s\<lparr>offHours := Some x\<rparr>)
                in case validate_each 0 shots of
                     Inl e \<Rightarrow> (Inl e, s')
                   | Inr shots' \<Rightarrow> (Inr (cfg\<lparr>screenshots := Some shots'\<rparr>), s'))))"

text \<open>\<^verbatim>\<open>setTimeout\<close> or \<^verbatim>\<open>setInterval\<close>: a new timer, with the next free id.\<close>

definition arm :: "timer_kind \<Rightarrow> rat \<Rightarrow> screenshot_config \<Rightarrow> scheduler \<Rightarrow> scheduler" where
  "arm k d c s =
     s\<lparr>timers := timers s @ [\<lparr>t_id = next_timer s, t_kind = k, t_delay = d, t_job = c\<rparr>],
       next_timer := Suc (next_timer s)\<rparr>"

text \<open>
  \<^verbatim>\<open>scheduleJob(screenshotConfig, startupDelayMs)\<close>, called by \<^verbatim>\<open>start\<close> on entries that
  \<^verbatim>\<open>loadConfig\<close> has returned (they have a name and an interval).
\<close>

definition scheduleJob :: "screenshot_config \<Rightarrow> rat \<Rightarrow> scheduler \<Rightarrow> scheduler" where
  "scheduleJob screenshotConfig startupDelayMs s =
     (let name = the (c_name screenshotConfig); interval = the (c_interval screenshotConfig)
      in if jobs s name \<noteq> None then s\<lparr>warnings := warnings s @ [name]\<rparr>
         else
           (let s1 = (if startupDelayMs > 0 then arm Timeout startupDelayMs screenshotConfig s
                      else s\<lparr>started := started s @ [screenshotConfig]\<rparr>);
                intervalMs = interval * 1000;
                s2 = arm Interval intervalMs screenshotConfig s1
            in s2\<lparr>jobs := (jobs s2)(name \<mapsto> \<lparr>job_config = screenshotConfig, timerId = next_timer s1\<rparr>)\<rparr>))"

text \<open>
  \<^verbatim>\<open>config.screenshots.forEach((screenshot, index) => ...)\<close> in \<^verbatim>\<open>start\<close>: the startup
  delay is the index times \<^verbatim>\<open>STAGGER_DELAY\<close> (2000 ms).
\<close>

fun schedule_each :: "nat \<Rightarrow> screenshot_config list \<Rightarrow> scheduler \<Rightarrow> scheduler" where
  "schedule_each index [] s = s"
| "schedule_each index (x # xs) s =
     schedule_each (Suc index) xs (scheduleJob x (of_nat index * 2000) s)"

text \<open>\<^verbatim>\<open>start()\<close>: the error of \<^verbatim>\<open>loadConfig\<close> is logged and thrown again.\<close>

definition start :: "scheduler \<Rightarrow> config \<Rightarrow> (config_error + unit) \<times> scheduler" where
  "start s cfg =
     (case loadConfig s cfg of
        (Inl e, s') \<Rightarrow> (Inl e, s')
      | (Inr cfg', s') \<Rightarrow> (Inr (), schedule_each 0 (the (screenshots cfg')) s'))"

text \<open>The constructor's state.\<close>

definition new_scheduler :: scheduler where
  "new_scheduler =
     \<lparr>jobs = Map.empty, isShuttingDown = False, offHours = None, timers = [],
      next_timer = 0, started = [], warnings = []\<rparr>"

section \<open>screenshot.js: the operation queue\<close>

text \<open>
  The fields \<^verbatim>\<open>queue\<close> and \<^verbatim>\<open>processing\<close> of the \<^verbatim>\<open>Browser\<close> object, with what the event
  loop holds for it: \<open>running\<close> are the tasks whose \<^verbatim>\<open>taskFn()\<close> has been called and whose
  promise has not settled.  Three fields only record history: \<open>submitted\<close> and \<open>begun\<close>
  list the tasks in the order they were pushed and in the order \<^verbatim>\<open>taskFn()\<close> was called,
  each with the number of the drain pass current at that moment; \<open>passes\<close> counts how
  often \<^verbatim>\<open>processQueue\<close> got past its guard; \<open>settled\<close> lists the \<^verbatim>\<open>resolve\<close> (\<open>True\<close>)
  and \<^verbatim>\<open>reject\<close> (\<open>False\<close>) calls.
\<close>

record 'a op_queue =
  queue :: "'a list"
  processing :: bool
  running :: "'a list"
  passes :: nat
  submitted :: "('a \<times> nat) list"
  begun :: "('a \<times> nat) list"
  settled :: "('a \<times> bool) list"

definition new_queue :: "'a op_queue" where
  "new_queue =
     \<lparr>queue = [], processing = False, running = [], passes = 0,
      submitted = [], begun = [], settled = []\<rparr>"

text \<open>
  The \<^verbatim>\<open>while (this.queue.length > 0)\<close> loop from its test to its next suspension: it
  shifts the head and calls \<^verbatim>\<open>taskFn()\<close>, then waits at \<^verbatim>\<open>await\<close>; on an empty queue
  it leaves the loop and clears \<^verbatim>\<open>processing\<close>.
\<close>

definition loop_head :: "'a op_queue \<Rightarrow> 'a op_queue" where
  "loop_head s =
     (case queue s of
        [] \<Rightarrow> s\<lparr>processing := False\<rparr>
      | t # rest \<Rightarrow>
          s\<lparr>queue := rest, running := running s @ [t], begun := begun s @ [(t, passes s)]\<rparr>)"

definition processQueue :: "'a op_queue \<Rightarrow> 'a op_queue" where
  "processQueue s =
     (if processing s \<or> queue s = [] then s
      else loop_head (s\<lparr>processing := True, passes := Suc (passes s)\<rparr>))"

text \<open>
  \<^verbatim>\<open>enqueue(taskFn)\<close>: push, then \<^verbatim>\<open>processQueue()\<close>.  The pass recorded for the task is
  the one in progress, or the one its own push is about to start.
\<close>

definition enqueue :: "'a \<Rightarrow> 'a op_queue \<Rightarrow> 'a op_queue" where
  "enqueue t s =
     processQueue
       (s\<lparr>queue := queue s @ [t],
          submitted := submitted s @ [(t, if processing s then passes s else Suc (passes s))]\<rparr>)"

text \<open>
  The awaited promise of a running task settles: the worker calls \<^verbatim>\<open>resolve\<close> or
  \<^verbatim>\<open>reject\<close> and goes round the loop.  Nothing happens for a task that is not running.
\<close>

definition settle :: "'a \<Rightarrow> bool \<Rightarrow> 'a op_queue \<Rightarrow> 'a op_queue" where
  "settle t ok s =
     (if t \<in> set (running s)
      then loop_head (s\<lparr>running := remove1 t (running s), settled := settled s @ [(t, ok)]\<rparr>)
      else s)"

datatype 'a queue_event = Enqueue 'a | Settle 'a bool

fun queue_step :: "'a op_queue \<Rightarrow> 'a queue_event \<Rightarrow> 'a op_queue" where
  "queue_step s (Enqueue t) = enqueue t s"
| "queue_step s (Settle t ok) = settle t ok s"

definition run_queue :: "'a queue_event list \<Rightarrow> 'a op_queue" where
  "run_queue evs = foldl queue_step new_queue evs"

text \<open>The tasks an event list submits, in order.\<close>

fun enqueued :: "'a queue_event list \<Rightarrow> 'a list" where
  "enqueued [] = []"
| "enqueued (Enqueue t # evs) = t # enqueued evs"
| "enqueued (Settle t ok # evs) = enqueued evs"

text \<open>
  Every running task settles, one after the other, and nothing new is submitted: \<open>n\<close>
  rounds of the worker.
\<close>

fun settle_rounds :: "nat \<Rightarrow> 'a op_queue \<Rightarrow> 'a op_queue" where
  "settle_rounds 0 s = s"
| "settle_rounds (Suc n) s =
     (case running s of [] \<Rightarrow> s | t # ts \<Rightarrow> settle_rounds n (settle t True s))"

text \<open>
  What holds between any two events: at most one task runs, \<^verbatim>\<open>processing\<close> is set exactly
  while one does, waiting tasks imply a worker, and every task begins in the pass that
  was recorded when it was pushed.
\<close>

definition queue_inv :: "'a op_queue \<Rightarrow> bool" where
  "queue_inv s =
     (length (running s) \<le> 1
      \<and> processing s = (running s \<noteq> [])
      \<and> (processing s \<or> queue s = [])
      \<and> begun s @ map (\<lambda>t. (t, passes s)) (queue s) = submitted s)"

section \<open>screenshot.js: the browser session\<close>

text \<open>
  \<^verbatim>\<open>CannotOpenPageError(status, url)\<close> and every other \<^verbatim>\<open>Error\<close>, with its message.
\<close>

datatype error = CannotOpenPageError nat string | JsError string

text \<open>
  The request built by \<^verbatim>\<open>captureScreenshot\<close>.  \<^verbatim>\<open>parseInt\<close> may give \<^verbatim>\<open>NaN\<close> and a
  property may be \<^verbatim>\<open>undefined\<close>: both are \<open>None\<close>.
\<close>

record viewport =
  width :: "int option"
  height :: "int option"

record request_params =
  pagePath :: "string option"
  viewport :: viewport
  extraWait :: "int option"
  einkColors :: "int option"
  invert :: bool
  zoom :: rat
  format :: string
  rotate_deg :: "int option"
  lang :: "string option"
  theme :: "string option"
  dark :: bool

text \<open>The options of \<^verbatim>\<open>page.screenshot\<close>.\<close>

record capture =
  shot_type :: string
  clip_x :: int
  clip_y :: int
  clip_width :: "int option"
  clip_height :: "int option"

text \<open>The calls made on a \<^verbatim>\<open>sharp\<close> instance, in order.\<close>

datatype sharp_op =
    Rotate int
  | Threshold nat bool
  | Negate bool
  | ToColourspace string
  | Raw
  | Jpeg
  | Webp
  | Png "int option"

text \<open>
  A result buffer, described by how it was made: \<open>SharpBuffer c ops\<close> is
  \<^verbatim>\<open>sharp(image)\<close> with the calls \<open>ops\<close> and \<^verbatim>\<open>toBuffer()\<close>, for the capture \<open>c\<close>;
  \<open>BmpFile bits c ops\<close> is \<^verbatim>\<open>new BMPEncoder(info.width, info.height, bits).encode(data)\<close>
  of that raw buffer.
\<close>

datatype image = SharpBuffer capture "sharp_op list" | BmpFile nat capture "sharp_op list"

text \<open>The calls on the external browser and image library, as the session makes them.\<close>

datatype page_action =
    Launch
  | SetViewport "int option" "int option"
  | EvaluateOnNewDocument
  | Goto string bool
  | RemoveScript
  | DismissToast rat
  | SetZoom rat
  | WaitForLoaded
  | Delay int
  | SelectLanguage string
  | SetTheme string bool
  | Screenshot capture
  | ToBuffer "sharp_op list"
  | BmpEncode nat

text \<open>
  How the outside answers during one operation: \<open>throws a\<close> is the error the call \<open>a\<close>
  raises, if it raises; \<open>status url\<close> the HTTP status of the response to \<^verbatim>\<open>page.goto\<close>;
  \<open>toast\<close> whether the first \<^verbatim>\<open>page.evaluate\<close> found and clicked an update toast.
  \<open>isAddOn\<close> (const.js) and the URL resolution \<^verbatim>\<open>new URL(pagePath, homeAssistantUrl)\<close> are
  parameters too.
\<close>

record page_env =
  isAddOn :: bool
  resolveUrl :: "string option \<Rightarrow> string"
  throws :: "page_action \<Rightarrow> error option"
  status :: "string \<Rightarrow> nat"
  toast :: bool

text \<open>
  The \<^verbatim>\<open>Browser\<close> object: whether \<^verbatim>\<open>this.page\<close> is set, the viewport that page has, the
  four cached request values, and the trace of calls made so far (oldest first).
\<close>

record browser =
  has_page :: bool
  page_viewport :: "viewport option"
  lastRequestedPath :: "string option"
  lastRequestedLang :: "string option"
  lastRequestedTheme :: "string option"
  lastRequestedDarkMode :: "bool option"
  performed :: "page_action list"

definition new_browser :: browser where
  "new_browser =
     \<lparr>has_page = False, page_viewport = None, lastRequestedPath = None,
      lastRequestedLang = None, lastRequestedTheme = None, lastRequestedDarkMode = None,
      performed = []\<rparr>"

text \<open>An operation on the session: it ends in a thrown error or a result, and a new state.\<close>

type_synonym 'a io = "browser \<Rightarrow> (error + 'a) \<times> browser"

definition io_return :: "'a \<Rightarrow> 'a io" where
  "io_return x s = (Inr x, s)"

definition io_throw :: "error \<Rightarrow> 'a io" where
  "io_throw e s = (Inl e, s)"

definition io_bind :: "'a io \<Rightarrow> ('a \<Rightarrow> 'b io) \<Rightarrow> 'b io" where
  "io_bind m f s = (case m s of (Inl e, s') \<Rightarrow> (Inl e, s') | (Inr x, s') \<Rightarrow> f x s')"

text \<open>\<^verbatim>\<open>try { m } catch (err) { h err }\<close>.\<close>

definition io_catch :: "'a io \<Rightarrow> (error \<Rightarrow> 'a io) \<Rightarrow> 'a io" where
  "io_catch m h s = (case m s of (Inl e, s') \<Rightarrow> h e s' | (Inr x, s') \<Rightarrow> (Inr x, s'))"

definition modify :: "(browser \<Rightarrow> browser) \<Rightarrow> unit io" where
  "modify f s = (Inr (), f s)"

text \<open>An awaited call: it is made, and throws if the outside says so.\<close>

definition call :: "page_env \<Rightarrow> page_action \<Rightarrow> unit io" where
  "call env a s =
     (case throws env a of
        Some e \<Rightarrow> (Inl e, s\<lparr>performed := performed s @ [a]\<rparr>)
      | None \<Rightarrow> (Inr (), s\<lparr>performed := performed s @ [a]\<rparr>))"

text \<open>A call that cannot throw into the caller (a timer, or a promise that is not awaited).\<close>

definition call_quiet :: "page_action \<Rightarrow> unit io" where
  "call_quiet a s = (Inr (), s\<lparr>performed := performed s @ [a]\<rparr>)"

text \<open>\<^verbatim>\<open>Math.round\<close>: to the nearest integer, halves upwards.\<close>

definition js_round :: "rat \<Rightarrow> int" where
  "js_round x = \<lfloor>x + 1 / 2\<rfloor>"

definition HEADER_HEIGHT :: rat where
  "HEADER_HEIGHT = 56"

text \<open>\<^verbatim>\<open>a !== b\<close> on numbers: \<^verbatim>\<open>NaN\<close> differs from everything.\<close>

definition js_differs :: "int option \<Rightarrow> int option \<Rightarrow> bool" where
  "js_differs a b = (case a of None \<Rightarrow> True | Some x \<Rightarrow> (case b of None \<Rightarrow> True | Some y \<Rightarrow> x \<noteq> y))"

text \<open>\<^verbatim>\<open>getPage()\<close>: the launch errors are not caught.\<close>

definition getPage :: "page_env \<Rightarrow> unit io" where
  "getPage env s =
     (if has_page s then io_return () s
      else io_bind (call env Launch) (\<lambda>_. modify (\<lambda>b. b\<lparr>has_page := True\<rparr>)) s)"

text \<open>
  The test before \<^verbatim>\<open>page.setViewport\<close>: the page has no viewport yet, or its width or
  height is not the requested one.
\<close>

definition needs_viewport :: "browser \<Rightarrow> viewport \<Rightarrow> bool" where
  "needs_viewport s vp =
     (case page_viewport s of
        None \<Rightarrow> True
      | Some cur \<Rightarrow> js_differs (width cur) (width vp) \<or> js_differs (height cur) (height vp))"

definition apply_viewport :: "page_env \<Rightarrow> viewport \<Rightarrow> unit io" where
  "apply_viewport env vp s =
     (if needs_viewport s vp
      then io_bind (call env (SetViewport (width vp) (height vp)))
             (\<lambda>_. modify (\<lambda>b. b\<lparr>page_viewport := Some vp\<rparr>)) s
      else io_return () s)"

text \<open>\<^verbatim>\<open>response.ok()\<close>.\<close>

definition response_ok :: "nat \<Rightarrow> bool" where
  "response_ok st = (200 \<le> st \<and> st \<le> 299)"

text \<open>
  Token injection, \<^verbatim>\<open>page.goto\<close> and the status check, shared by the first load and the
  page transition (which waits for \<^verbatim>\<open>networkidle0\<close>).  The script removal is not awaited.
\<close>

definition open_page :: "page_env \<Rightarrow> string \<Rightarrow> bool \<Rightarrow> unit io" where
  "open_page env pageUrl idle =
     io_bind (call env EvaluateOnNewDocument) (\<lambda>_.
     io_bind (call env (Goto pageUrl idle)) (\<lambda>_.
       if \<not> response_ok (status env pageUrl)
       then io_throw (CannotOpenPageError (status env pageUrl) pageUrl)
       else call_quiet RemoveScript))"

text \<open>The three cases of \<^verbatim>\<open>_navigatePage\<close>.\<close>

datatype nav_case = FirstLoad | PageTransition | SamePage

definition nav_case_of :: "browser \<Rightarrow> request_params \<Rightarrow> nav_case" where
  "nav_case_of s p =
     (if lastRequestedPath s = None then FirstLoad
      else if lastRequestedPath s \<noteq> pagePath p then PageTransition
      else SamePage)"

text \<open>The case split; the result is the case taken and \<^verbatim>\<open>defaultWait\<close> after it.\<close>

definition load_target :: "page_env \<Rightarrow> request_params \<Rightarrow> (nav_case \<times> int) io" where
  "load_target env p s =
     (case nav_case_of s p of
        FirstLoad \<Rightarrow>
          io_bind (open_page env (resolveUrl env (pagePath p)) False)
            (\<lambda>_. io_return (FirstLoad,
                    (if isAddOn env then 2000 else 1000) + (if isAddOn env then 5000 else 0))) s
      | PageTransition \<Rightarrow>
          io_bind (open_page env (resolveUrl env (pagePath p)) True)
            (\<lambda>_. io_return (PageTransition, if isAddOn env then 3000 else 2000)) s
      | SamePage \<Rightarrow> io_return (SamePage, 0) s)"

text \<open>
  The toast block.  Unless a new page was opened the first \<^verbatim>\<open>evaluate\<close> sets the zoom and
  looks for the toast; when it clicked one, a second is added to the wait, otherwise (and on
  a new page) the \<^verbatim>\<open>else\<close> branch sets the zoom.  The result is the wait added.
\<close>

definition dismiss_toast :: "page_env \<Rightarrow> request_params \<Rightarrow> nav_case \<Rightarrow> int io" where
  "dismiss_toast env p c =
     (if c \<noteq> FirstLoad
      then io_bind (call env (DismissToast (zoom p))) (\<lambda>_.
             if toast env then io_return 1000
             else io_bind (call env (SetZoom (zoom p))) (\<lambda>_. io_return 0))
      else io_bind (call env (SetZoom (zoom p))) (\<lambda>_. io_return 0))"

text \<open>\<^verbatim>\<open>page.waitForFunction\<close> in its own \<^verbatim>\<open>try\<close>: a timeout is logged and dropped.\<close>

definition wait_loaded :: "page_env \<Rightarrow> unit io" where
  "wait_loaded env = io_catch (call env WaitForLoaded) (\<lambda>err. io_return ())"

definition update_language :: "page_env \<Rightarrow> request_params \<Rightarrow> int io" where
  "update_language env p s =
     (if lang p \<noteq> lastRequestedLang s
      then io_bind (call env (SelectLanguage (if truthy_str (lang p) then the (lang p) else ''en'')))
             (\<lambda>_. io_bind (modify (\<lambda>b. b\<lparr>lastRequestedLang := lang p\<rparr>))
             (\<lambda>_. io_return 1000)) s
      else io_return 0 s)"

definition update_theme :: "page_env \<Rightarrow> request_params \<Rightarrow> int io" where
  "update_theme env p s =
     (if theme p \<noteq> lastRequestedTheme s \<or> Some (dark p) \<noteq> lastRequestedDarkMode s
      then io_bind (call env (SetTheme (if truthy_str (theme p) then the (theme p) else []) (dark p)))
             (\<lambda>_. io_bind (modify (\<lambda>b. b\<lparr>lastRequestedTheme := theme p,
                                          lastRequestedDarkMode := Some (dark p)\<rparr>))
             (\<lambda>_. io_return 500)) s
      else io_return 0 s)"

text \<open>The wait that ends the navigation: the caller's \<^verbatim>\<open>extraWait\<close>, or \<^verbatim>\<open>defaultWait\<close>.\<close>

definition applied_wait :: "request_params \<Rightarrow> int \<Rightarrow> int" where
  "applied_wait p defaultWait = (case extraWait p of None \<Rightarrow> defaultWait | Some w \<Rightarrow> w)"

definition final_wait :: "request_params \<Rightarrow> int \<Rightarrow> unit io" where
  "final_wait p defaultWait =
     (if applied_wait p defaultWait \<noteq> 0 then call_quiet (Delay (applied_wait p defaultWait))
      else io_return ())"

text \<open>
  \<^verbatim>\<open>_navigatePage(params)\<close>, the body that \<^verbatim>\<open>navigatePageDirect\<close> returns.  It adds the
  header height to \<^verbatim>\<open>params.viewport.height\<close> in place; the result is that viewport, which
  the caller's \<^verbatim>\<open>params\<close> holds from then on.  The \<^verbatim>\<open>catch\<close> only throws again.
  \<open>after_load\<close> is the part from the assignment to \<^verbatim>\<open>this.lastRequestedPath\<close> to the end of
  the \<^verbatim>\<open>try\<close> block.
\<close>

definition after_load :: "page_env \<Rightarrow> request_params \<Rightarrow> viewport \<Rightarrow> nav_case \<Rightarrow> int \<Rightarrow> viewport io" where
  "after_load env p vp c w0 =
     io_bind (modify (\<lambda>b. b\<lparr>lastRequestedPath := pagePath p\<rparr>)) (\<lambda>_.
     io_bind (dismiss_toast env p c) (\<lambda>w1.
     io_bind (wait_loaded env) (\<lambda>_.
     io_bind (if c = PageTransition then call_quiet (Delay 500) else io_return ()) (\<lambda>_.
     io_bind (update_language env p) (\<lambda>w2.
     io_bind (update_theme env p) (\<lambda>w3.
     io_bind (final_wait p (w0 + w1 + w2 + w3)) (\<lambda>_.
     io_return vp)))))))"

definition navigate_body :: "page_env \<Rightarrow> request_params \<Rightarrow> viewport \<Rightarrow> viewport io" where
  "navigate_body env p vp =
     io_bind (getPage env) (\<lambda>_.
     io_bind (apply_viewport env vp) (\<lambda>_.
     io_bind (load_target env p) (\<lambda>(c, w0).
     after_load env p vp c w0)))"

definition navigatePageDirect :: "page_env \<Rightarrow> request_params \<Rightarrow> viewport io" where
  "navigatePageDirect env p =
     (let headerHeight = js_round (HEADER_HEIGHT * zoom p);
          vp = (viewport p)\<lparr>height := map_option (\<lambda>h. h + headerHeight) (height (viewport p))\<rparr>
      in io_catch (navigate_body env p vp) (\<lambda>err. io_throw err))"

text \<open>
  The calls on the \<^verbatim>\<open>sharp\<close> instance before the output is chosen: the rotation, and for
  two colours the threshold at 220 on the greyscale image and the optional negation.
\<close>

definition sharp_pipeline :: "request_params \<Rightarrow> sharp_op list" where
  "sharp_pipeline p =
     (if truthy_int (rotate_deg p) then [Rotate (the (rotate_deg p))] else [])
     @ (if einkColors p = Some 2
        then [Threshold 220 True] @ (if invert p then [Negate False] else [])
        else [])"

text \<open>The bit depth chosen in the e-ink branch for the \<^verbatim>\<open>bmp\<close> format.\<close>

definition bitsPerPixel :: "int option \<Rightarrow> nat" where
  "bitsPerPixel colors =
     (if colors = Some 2 then 1
      else if colors = Some 4 then 2
      else if colors = Some 16 then 4
      else 8)"

text \<open>\<^verbatim>\<open>toBuffer()\<close> after the calls \<open>ops\<close>: it may throw.\<close>

definition to_buffer :: "page_env \<Rightarrow> capture \<Rightarrow> sharp_op list \<Rightarrow> image io" where
  "to_buffer env c ops = io_bind (call env (ToBuffer ops)) (\<lambda>_. io_return (SharpBuffer c ops))"

definition bmp_encode :: "page_env \<Rightarrow> capture \<Rightarrow> sharp_op list \<Rightarrow> nat \<Rightarrow> image io" where
  "bmp_encode env c ops bits =
     io_bind (call env (ToBuffer (ops @ [Raw]))) (\<lambda>_.
     io_bind (call env (BmpEncode bits)) (\<lambda>_.
     io_return (BmpFile bits c (ops @ [Raw]))))"

text \<open>The choice of the output, from \<^verbatim>\<open>if (einkColors)\<close> to the last \<^verbatim>\<open>else\<close>.\<close>

definition encode_image :: "page_env \<Rightarrow> request_params \<Rightarrow> capture \<Rightarrow> image io" where
  "encode_image env p c =
     (if truthy_int (einkColors p)
      then
        (let ops = sharp_pipeline p
                     @ (if einkColors p = Some 2 then [ToColourspace ''b-w''] else [])
         in if format p = ''bmp'' then bmp_encode env c ops (bitsPerPixel (einkColors p))
            else if format p = ''jpeg'' then to_buffer env c (ops @ [Jpeg])
            else if format p = ''webp'' then to_buffer env c (ops @ [Webp])
            else to_buffer env c (ops @ [Png (einkColors p)]))
      else if format p = ''jpeg'' then to_buffer env c (sharp_pipeline p @ [Jpeg])
      else if format p = ''webp'' then to_buffer env c (sharp_pipeline p @ [Webp])
      else if format p = ''bmp'' then bmp_encode env c (sharp_pipeline p) 24
      else to_buffer env c (sharp_pipeline p @ [Png None]))"

text \<open>The \<^verbatim>\<open>try\<close> block of \<^verbatim>\<open>_screenshotPage\<close>.\<close>

definition screenshot_body :: "page_env \<Rightarrow> request_params \<Rightarrow> image io" where
  "screenshot_body env p =
     (let headerHeight = js_round (HEADER_HEIGHT * zoom p);
          c = \<lparr>shot_type = (if truthy_int (einkColors p) \<or> format p = ''bmp'' then ''png''
                             else format p),
               clip_x = 0, clip_y = headerHeight,
               clip_width = width (viewport p),
               clip_height = map_option (\<lambda>h. h - headerHeight) (height (viewport p))\<rparr>
      in io_bind (getPage env) (\<lambda>_.
         io_bind (call env (Screenshot c)) (\<lambda>_.
         encode_image env p c)))"

text \<open>
  \<^verbatim>\<open>_screenshotPage(params)\<close>, the body that \<^verbatim>\<open>screenshotPageDirect\<close> returns: the
  \<^verbatim>\<open>catch\<close> clears \<^verbatim>\<open>lastRequestedPath\<close> and throws the error again.
\<close>

definition screenshotPageDirect :: "page_env \<Rightarrow> request_params \<Rightarrow> image io" where
  "screenshotPageDirect env p =
     io_catch (screenshot_body env p)
       (\<lambda>err. io_bind (modify (\<lambda>b. b\<lparr>lastRequestedPath := None\<rparr>)) (\<lambda>_. io_throw err))"

text \<open>
  The task that \<^verbatim>\<open>navigateAndScreenshot\<close> enqueues: navigation, then the capture with the
  same \<^verbatim>\<open>params\<close> object.  The queue runs one task at a time, so the task is one
  uninterrupted operation on the session.
\<close>

definition navigateAndScreenshot :: "page_env \<Rightarrow> request_params \<Rightarrow> image io" where
  "navigateAndScreenshot env p =
     io_bind (navigatePageDirect env p) (\<lambda>vp. screenshotPageDirect env (p\<lparr>viewport := vp\<rparr>))"

text \<open>
  Modelled from the spec: sharp is an external library and is not among the sources.  A
  frame is its rows of 8-bit luminance (greyscale) samples, top row first.
\<close>

type_synonym frame = "nat list list"

text \<open>
  Modelled from the spec: what one \<^verbatim>\<open>sharp\<close> call makes of a frame, the calls taken in the
  order in which \<^verbatim>\<open>_screenshotPage\<close> makes them, as the specification describes the
  pipeline (threshold after the conversion to greyscale, then the optional negation).
  \<^verbatim>\<open>threshold(t)\<close> makes a sample at or above \<open>t\<close> 255 and any other 0; \<^verbatim>\<open>negate\<close> maps
  \<open>v\<close> to \<open>255 - v\<close>; \<^verbatim>\<open>rotate(a)\<close> gives the frame \<open>rot a f\<close>, where the rotation \<open>rot\<close> is
  a parameter (sharp resamples for an angle that is not a multiple of 90 degrees).
  \<^verbatim>\<open>toColourspace\<close> marks the frame, and \<^verbatim>\<open>raw\<close>, \<^verbatim>\<open>jpeg\<close>, \<^verbatim>\<open>webp\<close> and \<^verbatim>\<open>png\<close> choose
  how it is encoded: the frame meant is the one that is handed to the encoder.
\<close>

fun sharp_apply :: "(int \<Rightarrow> frame \<Rightarrow> frame) \<Rightarrow> frame \<Rightarrow> sharp_op \<Rightarrow> frame" where
  "sharp_apply rot f (Rotate a) = rot a f"
| "sharp_apply rot f (Threshold t g) = map (map (\<lambda>v. if t \<le> v then 255 else 0)) f"
| "sharp_apply rot f (Negate a) = map (map (\<lambda>v. 255 - v)) f"
| "sharp_apply rot f _ = f"

text \<open>Modelled from the spec: a frame after the calls \<open>ops\<close>, first call first.\<close>

definition sharp_frame :: "(int \<Rightarrow> frame \<Rightarrow> frame) \<Rightarrow> sharp_op list \<Rightarrow> frame \<Rightarrow> frame" where
  "sharp_frame rot ops f = foldl (sharp_apply rot) f ops"

text \<open>
  Modelled from the spec: the frame that a result of \<^verbatim>\<open>_screenshotPage\<close> holds, where
  \<open>src c\<close> is the frame that \<^verbatim>\<open>page.screenshot\<close> returned for the capture \<open>c\<close>.  For a
  bitmap it is the raw buffer that is given to \<^verbatim>\<open>BMPEncoder\<close>.
\<close>

fun image_frame :: "(int \<Rightarrow> frame \<Rightarrow> frame) \<Rightarrow> (capture \<Rightarrow> frame) \<Rightarrow> image \<Rightarrow> frame" where
  "image_frame rot src (SharpBuffer c ops) = sharp_frame rot ops (src c)"
| "image_frame rot src (BmpFile bits c ops) = sharp_frame rot ops (src c)"

text \<open>Black is the sample 0 and white the sample 255.\<close>

definition black :: nat where
  "black = 0"

definition white :: nat where
  "white = 255"

section \<open>file-manager.js\<close>

text \<open>
  The directories and files on disk, and the errors \<^verbatim>\<open>mkdirSync\<close> and \<^verbatim>\<open>writeFileSync\<close>
  raise for a path (their messages).
\<close>

record file_store =
  dirs :: "string list"
  files :: "string \<rightharpoonup> image"

record fs_env =
  mkdir_error :: "string \<Rightarrow> string option"
  write_error :: "string \<Rightarrow> string option"

definition getExtension :: "string \<Rightarrow> int option \<Rightarrow> string" where
  "getExtension fmt colors =
     (if truthy_int colors \<and> fmt = ''bmp'' then ''bmp''
      else if fmt \<noteq> [] then fmt else ''png'')"

definition ensureDirectoryExists :: "fs_env \<Rightarrow> string \<Rightarrow> file_store \<Rightarrow> (error + unit) \<times> file_store" where
  "ensureDirectoryExists fenv dirPath fs =
     (if dirPath \<in> set (dirs fs) then (Inr (), fs)
      else (case mkdir_error fenv dirPath of
              Some m \<Rightarrow> (Inl (JsError (''Cannot create directory: '' @ dirPath @ '' - '' @ m)), fs)
            | None \<Rightarrow> (Inr (), fs\<lparr>dirs := dirs fs @ [dirPath]\<rparr>)))"

text \<open>
  \<^verbatim>\<open>saveScreenshot(name, imageBuffer, format, einkColors, false)\<close>.  \<^verbatim>\<open>path.join\<close> is
  written as concatenation with a slash; it throws for a name that is not a string.
\<close>

definition saveScreenshot ::
  "fs_env \<Rightarrow> string \<Rightarrow> string option \<Rightarrow> image \<Rightarrow> string \<Rightarrow> int option \<Rightarrow> file_store
     \<Rightarrow> (error + string) \<times> file_store" where
  "saveScreenshot fenv baseOutputPath name imageBuffer fmt colors fs =
     (case name of
        None \<Rightarrow> (Inl (JsError ''The path argument must be of type string''), fs)
      | Some n \<Rightarrow>
          (let screenshotDir = baseOutputPath @ ''/'' @ n
           in case ensureDirectoryExists fenv screenshotDir fs of
                (Inl e, fs') \<Rightarrow> (Inl e, fs')
              | (Inr u, fs') \<Rightarrow>
                  (let latestPath = screenshotDir @ ''/latest.'' @ getExtension fmt colors
                   in case write_error fenv latestPath of
                        Some m \<Rightarrow> (Inl (JsError (''Cannot write screenshot file: '' @ m)), fs')
                      | None \<Rightarrow>
                          (Inr latestPath, fs'\<lparr>files := (files fs')(latestPath \<mapsto> imageBuffer)\<rparr>))))"

definition getLocalUrl :: "string \<Rightarrow> string \<Rightarrow> int option \<Rightarrow> string" where
  "getLocalUrl name fmt colors =
     ''/local/screenshots/'' @ name @ ''/latest.'' @ getExtension fmt colors"

section \<open>scheduler.js: one firing\<close>

text \<open>
  \<^verbatim>\<open>parseInt\<close> of a JSON number: the integer part, towards zero (a number that prints in
  exponent notation apart).
\<close>

definition js_parseInt :: "rat option \<Rightarrow> int option" where
  "js_parseInt v = map_option (\<lambda>x. if 0 \<le> x then \<lfloor>x\<rfloor> else \<lceil>x\<rceil>) v"

text \<open>The outcome record: skipped, \<^verbatim>\<open>{success: true, path, url}\<close>, or \<^verbatim>\<open>{success: false, error}\<close>.\<close>

datatype outcome = Skipped | Success string string | Failure string

text \<open>
  \<^verbatim>\<open>err.message\<close>.  error.js is not among the sources, so the message that
  \<^verbatim>\<open>CannotOpenPageError\<close> builds from its status and URL is a parameter.
\<close>

definition err_message :: "(nat \<Rightarrow> string \<Rightarrow> string) \<Rightarrow> error \<Rightarrow> string" where
  "err_message cannot_open e =
     (case e of CannotOpenPageError st url \<Rightarrow> cannot_open st url | JsError m \<Rightarrow> m)"

text \<open>\<^verbatim>\<open>requestParams\<close>, for an entry whose \<^verbatim>\<open>viewport\<close> is the object \<open>v\<close>.\<close>

definition requestParams :: "screenshot_config \<Rightarrow> viewport_cfg \<Rightarrow> request_params" where
  "requestParams c v =
     \<lparr>pagePath = c_path c,
      viewport = \<lparr>width = js_parseInt (vp_width v), height = js_parseInt (vp_height v)\<rparr>,
      extraWait = (if truthy_num (c_wait c) then js_parseInt (c_wait c) else None),
      einkColors = (if truthy_num (c_eink c) then js_parseInt (c_eink c) else None),
      invert = (case c_invert c of None \<Rightarrow> False | Some b \<Rightarrow> b),
      zoom = (if truthy_num (c_zoom c) then the (c_zoom c) else 1),
      format = (if truthy_str (c_format c) then the (c_format c) else ''png''),
      rotate_deg = (if truthy_num (c_rotate c) then js_parseInt (c_rotate c) else None),
      lang = c_lang c,
      theme = c_theme c,
      dark = (case c_dark c of None \<Rightarrow> False | Some b \<Rightarrow> b)\<rparr>"

text \<open>The session and the disk: what a firing can change.\<close>

type_synonym world = "browser \<times> file_store"

text \<open>
  The \<^verbatim>\<open>try\<close> block of \<^verbatim>\<open>captureScreenshot\<close>.  Reading \<^verbatim>\<open>viewport.width\<close> of an entry
  without a viewport throws a \<^verbatim>\<open>TypeError\<close>.
\<close>

definition capture_body ::
  "page_env \<Rightarrow> fs_env \<Rightarrow> string \<Rightarrow> screenshot_config \<Rightarrow> world \<Rightarrow> (error + outcome) \<times> world" where
  "capture_body env fenv base c w =
     (case c_viewport c of
        None \<Rightarrow> (Inl (JsError ''Cannot read properties of undefined''), w)
      | Some v \<Rightarrow>
          (case navigateAndScreenshot env (requestParams c v) (fst w) of
             (Inl e, b') \<Rightarrow> (Inl e, (b', snd w))
           | (Inr img, b') \<Rightarrow>
               (case saveScreenshot fenv base (c_name c) img (format (requestParams c v))
                       (einkColors (requestParams c v)) (snd w) of
                  (Inl e, fs') \<Rightarrow> (Inl e, (b', fs'))
                | (Inr savedPath, fs') \<Rightarrow>
                    (Inr (Success savedPath
                            (getLocalUrl (the (c_name c)) (format (requestParams c v))
                               (einkColors (requestParams c v)))),
                     (b', fs')))))"

text \<open>
  \<^verbatim>\<open>captureScreenshot(screenshotConfig)\<close>, with the wall clock \<open>now\<close>.  The result is
  \<open>Inl\<close> if an error leaves the function and \<open>Inr\<close> if it returns an outcome record.
\<close>

definition captureScreenshot ::
  "page_env \<Rightarrow> fs_env \<Rightarrow> (nat \<Rightarrow> string \<Rightarrow> string) \<Rightarrow> string \<Rightarrow> scheduler \<Rightarrow> nat \<times> nat
     \<Rightarrow> screenshot_config \<Rightarrow> world \<Rightarrow> (error + outcome) \<times> world" where
  "captureScreenshot env fenv cannot_open base sched now c w =
     (if isOffHours (offHours sched) now then (Inr Skipped, w)
      else (case capture_body env fenv base c w of
              (Inl err, w') \<Rightarrow> (Inr (Failure (err_message cannot_open err)), w')
            | (Inr out, w') \<Rightarrow> (Inr out, w')))"

text \<open>
  The \<^verbatim>\<open>setInterval\<close> callback of a job: nothing while shutting down, else a capture whose
  promise is dropped.  The scheduler is given back as the callback leaves it.
\<close>

definition interval_tick ::
  "page_env \<Rightarrow> fs_env \<Rightarrow> (nat \<Rightarrow> string \<Rightarrow> string) \<Rightarrow> string \<Rightarrow> nat \<times> nat
     \<Rightarrow> screenshot_config \<Rightarrow> scheduler \<times> world \<Rightarrow> (error + outcome) option \<times> scheduler \<times> world" where
  "interval_tick env fenv cannot_open base now c sw =
     (if isShuttingDown (fst sw) then (None, sw)
      else (case captureScreenshot env fenv cannot_open base (fst sw) now c (snd sw) of
              (r, w') \<Rightarrow> (Some r, (fst sw, w'))))"

section \<open>bmp.js: the bitmap encoder\<close>

text \<open>
  Modelled from the spec: bmp.js (the class \<^verbatim>\<open>BMPEncoder\<close>) is not among the sources; this
  section follows section 4.4 of the specification.  A byte is a natural number below
  256.  A 16-bit header field, little-endian.
\<close>

definition le16 :: "nat \<Rightarrow> nat list" where
  "le16 n = [n mod 256, n div 256 mod 256]"

text \<open>Modelled from the spec: bmp.js is missing.  A 32-bit header field, little-endian.\<close>

definition le32 :: "nat \<Rightarrow> nat list" where
  "le32 n = [n mod 256, n div 256 mod 256, n div 65536 mod 256, n div 16777216 mod 256]"

text \<open>
  Modelled from the spec: bmp.js is missing.  ``Each row's packed bits/bytes padded to a
  4-byte boundary'': the bytes of one stored row.
\<close>

definition row_size :: "nat \<Rightarrow> nat \<Rightarrow> nat" where
  "row_size w d = (w * d + 31) div 32 * 4"

text \<open>
  Modelled from the spec: bmp.js is missing.  The grey of entry \<open>i\<close> of the colour table
  of depth \<open>d\<close>: the \<open>2^d\<close> entries run evenly from black (0) to white (255).
\<close>

definition grey_level :: "nat \<Rightarrow> nat \<Rightarrow> nat" where
  "grey_level d i = i * 255 div (2 ^ d - 1)"

text \<open>
  Modelled from the spec: bmp.js is missing.  ``A grayscale color table sized 2^depth'' for
  the depths up to 8: each entry is its grey as blue, green and red, and a reserved zero.
\<close>

definition color_table :: "nat \<Rightarrow> nat list" where
  "color_table d =
     (if d \<le> 8
      then concat (map (\<lambda>i. [grey_level d i, grey_level d i, grey_level d i, 0]) [0..<2 ^ d])
      else [])"

text \<open>
  Modelled from the spec: bmp.js is missing.  The file header of the classic layout, 14
  bytes: the signature \<^verbatim>\<open>BM\<close>, the file size, two reserved fields, the offset of the
  pixel rows.
\<close>

definition file_header :: "nat \<Rightarrow> nat \<Rightarrow> nat \<Rightarrow> nat list" where
  "file_header w h d =
     [66, 77] @ le32 (54 + length (color_table d) + h * row_size w d)
     @ le16 0 @ le16 0 @ le32 (54 + length (color_table d))"

text \<open>
  Modelled from the spec: bmp.js is missing.  The info header of the classic layout, 40
  bytes: its size, width, height, one plane, the depth, no compression, the size of the
  pixel rows, the two resolutions (the specification does not give them; zero here), the
  number of colours and of important colours.
\<close>

definition info_header :: "nat \<Rightarrow> nat \<Rightarrow> nat \<Rightarrow> nat list" where
  "info_header w h d =
     le32 40 @ le32 w @ le32 h @ le16 1 @ le16 d @ le32 0 @ le32 (h * row_size w d)
     @ le32 0 @ le32 0 @ le32 (if d \<le> 8 then 2 ^ d else 0) @ le32 0"

text \<open>
  Modelled from the spec: bmp.js is missing.  The \<open>d\<close> bits of a value, most significant
  first: how an index is packed into a byte.
\<close>

primrec bits_of :: "nat \<Rightarrow> nat \<Rightarrow> bool list" where
  "bits_of 0 v = []"
| "bits_of (Suc d) v = bits_of d (v div 2) @ [odd v]"

text \<open>Modelled from the spec: bmp.js is missing.  The value of a run of bits.\<close>

definition val_of :: "bool list \<Rightarrow> nat" where
  "val_of bs = foldl (\<lambda>n b. 2 * n + (if b then 1 else 0)) 0 bs"

text \<open>
  Modelled from the spec: bmp.js is missing.  The index of an 8-bit grey sample in the
  colour table of depth \<open>d\<close>: its \<open>d\<close> leading bits.
\<close>

definition index_of :: "nat \<Rightarrow> nat \<Rightarrow> nat" where
  "index_of d v = v div 2 ^ (8 - d)"

text \<open>
  Modelled from the spec: bmp.js is missing.  The samples of one row in the raw buffer:
  one per pixel for the indexed depths, three (red, green, blue) for 24 bits.
\<close>

definition samples_per_row :: "nat \<Rightarrow> nat \<Rightarrow> nat" where
  "samples_per_row w d = (if d = 24 then 3 * w else w)"

text \<open>
  Modelled from the spec: bmp.js is missing.  One stored row.  For the indexed depths the
  indices are packed as bit fields and the row is filled with zero bits up to its size;
  for 24 bits each pixel is stored as its three bytes in reverse order, then the row is
  filled with zero bytes.
\<close>

definition encode_row :: "nat \<Rightarrow> nat \<Rightarrow> nat list \<Rightarrow> nat list" where
  "encode_row d w row =
     (if d = 24
      then concat (map (\<lambda>x. rev (take 3 (drop (x * 3) row))) [0..<w])
           @ replicate (row_size w d - w * 3) 0
      else (let bits = concat (map (\<lambda>v. bits_of d (index_of d v)) row)
                         @ replicate (row_size w d * 8 - w * d) False
            in map (\<lambda>j. val_of (take 8 (drop (j * 8) bits))) [0..<row_size w d]))"

text \<open>
  Modelled from the spec: bmp.js is missing.  ``Pixel rows stored bottom-to-top'': the rows
  of the buffer, last row first.
\<close>

definition pixel_rows :: "nat \<Rightarrow> nat \<Rightarrow> nat \<Rightarrow> nat list \<Rightarrow> nat list" where
  "pixel_rows w h d buf =
     concat (map (\<lambda>y. encode_row d w
                          (take (samples_per_row w d) (drop (y * samples_per_row w d) buf)))
                 (rev [0..<h]))"

text \<open>
  Modelled from the spec: bmp.js is missing.  \<^verbatim>\<open>new BMPEncoder(width, height, bitsPerPixel)\<close>
  and \<^verbatim>\<open>encode(data)\<close>: ``file header + info header + (for depths up to 8) a grayscale
  color table, followed by pixel rows''.
\<close>

definition BMPEncoder_encode :: "nat \<Rightarrow> nat \<Rightarrow> nat \<Rightarrow> nat list \<Rightarrow> nat list" where
  "BMPEncoder_encode w h d buf =
     file_header w h d @ info_header w h d @ color_table d @ pixel_rows w h d buf"

text \<open>
  Modelled from the spec: no reference bitmap reader is among the sources.  The value of
  a little-endian field.
\<close>

definition from_le :: "nat list \<Rightarrow> nat" where
  "from_le bs = foldr (\<lambda>b n. b + 256 * n) bs 0"

text \<open>
  Modelled from the spec: no reference bitmap reader is among the sources.  The samples
  of one stored row: the blue byte of the table entry for an indexed pixel, the three bytes
  in reverse order for a 24-bit pixel.
\<close>

definition decode_row :: "nat \<Rightarrow> nat \<Rightarrow> nat list \<Rightarrow> nat list \<Rightarrow> nat list" where
  "decode_row d w table bytes =
     (if d = 24 then concat (map (\<lambda>x. rev (take 3 (drop (x * 3) bytes))) [0..<w])
      else (let bits = concat (map (bits_of 8) bytes)
            in map (\<lambda>x. table ! (val_of (take d (drop (x * d) bits)) * 4)) [0..<w]))"

text \<open>
  Modelled from the spec: no reference bitmap reader is among the sources.  A reader of
  the classic layout: it checks the signature, reads the offset of the pixel rows, the
  width, the height and the depth from the headers, takes the colour table that follows
  them, and gives the samples top row first.
\<close>

definition bmp_decode :: "nat list \<Rightarrow> (nat \<times> nat \<times> nat \<times> nat list) option" where
  "bmp_decode f =
     (if length f < 54 \<or> take 2 f \<noteq> [66, 77] then None
      else
        (let off = from_le (take 4 (drop 10 f));
             w = from_le (take 4 (drop 18 f));
             h = from_le (take 4 (drop 22 f));
             d = from_le (take 2 (drop 28 f));
             table = take (off - 54) (drop 54 f);
             pix = drop off f
         in if (d \<noteq> 1 \<and> d \<noteq> 2 \<and> d \<noteq> 4 \<and> d \<noteq> 8 \<and> d \<noteq> 24) \<or> length pix < h * row_size w d
            then None
            else Some (w, h, d,
                   concat (map (\<lambda>y. decode_row d w table
                                       (take (row_size w d) (drop (y * row_size w d) pix)))
                               (rev [0..<h])))))"

text \<open>
  Modelled from the spec: bmp.js is missing.  The raw buffers of a \<open>w\<close> by \<open>h\<close> picture: as
  many samples as the picture has, each a byte.
\<close>

definition valid_buffer :: "nat \<Rightarrow> nat \<Rightarrow> nat \<Rightarrow> nat list \<Rightarrow> bool" where
  "valid_buffer w h d buf =
     (length buf = h * samples_per_row w d \<and> list_all (\<lambda>v. v < 256) buf)"

text \<open>
  Modelled from the spec: bmp.js is missing.  What a reader finds for a sample: the byte
  itself at 24 bits, and for an indexed depth the grey of the table entry the sample was
  indexed to (``unindexing'').
\<close>

definition stored_grey :: "nat \<Rightarrow> nat \<Rightarrow> nat" where
  "stored_grey d v = (if d = 24 then v else grey_level d (index_of d v))"

section \<open>Notions used to state the properties\<close>

text \<open>
  The entries of a configuration that \<^verbatim>\<open>loadConfig\<close> is documented to accept: a name, a
  path, a viewport given as an object with non-zero width and height or, without the
  object, as non-zero flat \<^verbatim>\<open>width\<close> and \<^verbatim>\<open>height\<close>, and an interval of at least one
  second.
\<close>

definition job_complete :: "screenshot_config \<Rightarrow> bool" where
  "job_complete c =
     (truthy_str (c_name c) \<and> truthy_str (c_path c)
      \<and> (case c_viewport c of
            Some v \<Rightarrow> truthy_num (vp_width v) \<and> truthy_num (vp_height v)
          | None \<Rightarrow> truthy_num (c_width c) \<and> truthy_num (c_height c))
      \<and> (case c_interval c of None \<Rightarrow> False | Some i \<Rightarrow> 1 \<le> i))"

text \<open>An absent window, or one with a start and an end that both match \<open>timeRegex\<close>.\<close>

definition window_valid :: "off_hours_cfg option \<Rightarrow> bool" where
  "window_valid oh =
     (case oh of
        None \<Rightarrow> True
      | Some w \<Rightarrow>
          (case cfg_start w of
             None \<Rightarrow> False
           | Some a \<Rightarrow> (case cfg_end w of None \<Rightarrow> False | Some b \<Rightarrow> timeRegex a \<and> timeRegex b)))"

text \<open>The documented bounds of the README: width 100-7680, height 100-4320.\<close>

definition within_documented_bounds :: "screenshot_config \<Rightarrow> bool" where
  "within_documented_bounds c =
     (case c_width c of None \<Rightarrow> False | Some w \<Rightarrow>
        (case c_height c of None \<Rightarrow> False | Some h \<Rightarrow>
           100 \<le> w \<and> w \<le> 7680 \<and> 100 \<le> h \<and> h \<le> 4320))"

text \<open>A job with the flat width and height, an interval, and nothing optional.\<close>

definition basic_job :: "string \<Rightarrow> string \<Rightarrow> rat \<Rightarrow> rat \<Rightarrow> rat \<Rightarrow> screenshot_config" where
  "basic_job name path w h i =
     \<lparr>c_name = Some name, c_path = Some path, c_viewport = None, c_width = Some w,
      c_height = Some h, c_interval = Some i, c_wait = None, c_eink = None, c_invert = None,
      c_zoom = None, c_format = None, c_rotate = None, c_lang = None, c_theme = None,
      c_dark = None\<rparr>"

text \<open>The same job after \<^verbatim>\<open>loadConfig\<close> has added the viewport object.\<close>

definition loaded_job :: "string \<Rightarrow> string \<Rightarrow> rat \<Rightarrow> rat \<Rightarrow> rat \<Rightarrow> screenshot_config" where
  "loaded_job name path w h i =
     (basic_job name path w h i)\<lparr>c_viewport := Some \<lparr>vp_width = Some w, vp_height = Some h\<rparr>\<rparr>"

text \<open>An address resolution, and an outside in which no call throws.\<close>

definition ha_url :: "string option \<Rightarrow> string" where
  "ha_url path = ''http://ha:8123'' @ (case path of None \<Rightarrow> ''/undefined'' | Some x \<Rightarrow> x)"

definition quiet_env :: "nat \<Rightarrow> bool \<Rightarrow> page_env" where
  "quiet_env st t =
     \<lparr>isAddOn = False, resolveUrl = ha_url, throws = (\<lambda>a. None), status = (\<lambda>url. st), toast = t\<rparr>"

text \<open>An outside in which \<^verbatim>\<open>page.screenshot\<close> throws.\<close>

definition shot_fails_env :: "string \<Rightarrow> page_env" where
  "shot_fails_env m =
     \<lparr>isAddOn = False, resolveUrl = ha_url,
      throws = (\<lambda>a. case a of Screenshot c \<Rightarrow> Some (JsError m) | _ \<Rightarrow> None),
      status = (\<lambda>url. 200), toast = False\<rparr>"

definition quiet_fs :: fs_env where
  "quiet_fs = \<lparr>mkdir_error = (\<lambda>d. None), write_error = (\<lambda>f. None)\<rparr>"

definition empty_store :: file_store where
  "empty_store = \<lparr>dirs = [], files = Map.empty\<rparr>"

text \<open>A request for a path at 800 by 600, zoom 1, format png, nothing else set.\<close>

definition basic_params :: "string \<Rightarrow> request_params" where
  "basic_params path =
     \<lparr>pagePath = Some path, viewport = \<lparr>width = Some 800, height = Some 600\<rparr>,
      extraWait = None, einkColors = None, invert = False, zoom = 1, format = ''png'',
      rotate_deg = None, lang = None, theme = None, dark = False\<rparr>"

text \<open>The session as a successful \<open>basic_params path\<close> request leaves it, with an empty trace.\<close>

definition on_page :: "string \<Rightarrow> browser" where
  "on_page path =
     \<lparr>has_page = True, page_viewport = Some \<lparr>width = Some 800, height = Some 656\<rparr>,
      lastRequestedPath = Some path, lastRequestedLang = None, lastRequestedTheme = None,
      lastRequestedDarkMode = Some False, performed = []\<rparr>"

text \<open>The capture of an 800 by 600 viewport at zoom 1.\<close>

definition basic_capture :: capture where
  "basic_capture =
     \<lparr>shot_type = ''png'', clip_x = 0, clip_y = 56, clip_width = Some 800,
      clip_height = Some 600\<rparr>"





text \<open>The viewport that \<^verbatim>\<open>_navigatePage\<close> leaves in \<^verbatim>\<open>params\<close>: the header is added.\<close>

definition with_header :: "request_params \<Rightarrow> viewport" where
  "with_header p =
     (viewport p)\<lparr>height := map_option (\<lambda>h. h + js_round (HEADER_HEIGHT * zoom p)) (height (viewport p))\<rparr>"

text \<open>
  The options that \<^verbatim>\<open>_screenshotPage\<close> gives to \<^verbatim>\<open>page.screenshot\<close> for a request: the
  page below the header.
\<close>

definition clip_of :: "request_params \<Rightarrow> capture" where
  "clip_of p =
     \<lparr>shot_type = (if truthy_int (einkColors p) \<or> format p = ''bmp'' then ''png'' else format p),
      clip_x = 0, clip_y = js_round (HEADER_HEIGHT * zoom p),
      clip_width = width (viewport p),
      clip_height = map_option (\<lambda>h. h - js_round (HEADER_HEIGHT * zoom p)) (height (viewport p))\<rparr>"

text \<open>
  The calls of the two-colour pipeline, in order: the rotation if one is asked for, the
  threshold at 220 on the greyscale image, the negation under \<^verbatim>\<open>invert\<close>, and the mark
  \<^verbatim>\<open>b-w\<close> (one channel, black and white).
\<close>

definition two_colour_calls :: "request_params \<Rightarrow> sharp_op list" where
  "two_colour_calls p =
     (if truthy_int (rotate_deg p) then [Rotate (the (rotate_deg p))] else [])
     @ [Threshold 220 True]
     @ (if invert p then [Negate False] else [])
     @ [ToColourspace ''b-w'']"

text \<open>
  The rotation of a frame by a multiple of 90 degrees, clockwise; it stands for sharp's
  rotation at such angles only.
\<close>

definition quarter_turns :: "int \<Rightarrow> frame \<Rightarrow> frame" where
  "quarter_turns a f =
     (if a mod 360 = 90 then map rev (transpose f)
      else if a mod 360 = 180 then rev (map rev f)
      else if a mod 360 = 270 then rev (transpose f)
      else f)"

text \<open>
  The document that the page shows at each \<^verbatim>\<open>page.screenshot\<close> of a trace: the address
  of the last \<^verbatim>\<open>page.goto\<close> before it (\<open>d\<close> before the first), whatever its status was.
\<close>

fun captured_from :: "string option \<Rightarrow> page_action list \<Rightarrow> string option list" where
  "captured_from d [] = []"
| "captured_from d (Goto url idle # xs) = captured_from (Some url) xs"
| "captured_from d (Screenshot c # xs) = d # captured_from d xs"
| "captured_from d (x # xs) = captured_from d xs"

text \<open>
  A firing of a job at noon, without an off-hours window, when no call throws, the disk
  takes every file and \<^verbatim>\<open>page.goto\<close> is answered with the status \<open>st\<close>; and firings one
  after the other, as the queue runs them, with their outcomes in order.
\<close>

definition fire :: "nat \<Rightarrow> screenshot_config \<Rightarrow> world \<Rightarrow> (error + outcome) \<times> world" where
  "fire st c w =
     captureScreenshot (quiet_env st False) quiet_fs (\<lambda>st url. ''cannot open'') ''/out''
       new_scheduler (12, 0) c w"

fun run_firings :: "(nat \<times> screenshot_config) list \<Rightarrow> world \<Rightarrow> (error + outcome) list \<times> world" where
  "run_firings [] w = ([], w)"
| "run_firings ((st, c) # fs) w =
     (case fire st c w of (r, w') \<Rightarrow>
        (case run_firings fs w' of (rs, w'') \<Rightarrow> (r # rs, w'')))"

section \<open>Properties of the off-hours window\<close>

lemma digit_not_colon: "is_digit c \<Longrightarrow> c \<noteq> CHR '':''"
  by (auto simp: is_digit_def)

lemma timeRegex_parse:
  assumes "timeRegex s"
  shows "\<exists>hh mm. map js_Number (js_split CHR '':'' s) = [Some hh, Some mm]
           \<and> hh * 60 + mm = minute_of_day s"
  using assms
  by (rule timeRegex.elims(2))
     (auto simp: js_Number_def digit_not_colon is_digit_def digit_val_def)

lemma isOffHours_valid:
  assumes "timeRegex s" "timeRegex e"
  shows "isOffHours (Some \<lparr>oh_start = s, oh_end = e\<rparr>) (h, m) =
      (if minute_of_day s \<le> minute_of_day e
       then minute_of_day s \<le> h * 60 + m \<and> h * 60 + m < minute_of_day e
       else minute_of_day s \<le> h * 60 + m \<or> h * 60 + m < minute_of_day e)"
proof -
  from timeRegex_parse [OF assms(1)] obtain sh sm where
    s: "map js_Number (js_split CHR '':'' s) = [Some sh, Some sm]" "sh * 60 + sm = minute_of_day s"
    by (elim exE conjE)
  from timeRegex_parse [OF assms(2)] obtain eh em where
    e: "map js_Number (js_split CHR '':'' e) = [Some eh, Some em]" "eh * 60 + em = minute_of_day e"
    by (elim exE conjE)
  show ?thesis
    using s(2) e(2)
    by (simp add: isOffHours_def s(1) e(1) js_elem_def js_mul_def js_add_def js_le_def js_lt_def)
qed

text \<open>
  Claim C4.  With no window configured \<open>isOffHours\<close> is false.  For a window whose start
  and end texts passed the configuration check, with \<open>a\<close> and \<open>b\<close> their minutes of the day
  and \<open>t\<close> the current minute: if \<open>a \<le> b\<close> the result is \<open>a \<le> t < b\<close>, otherwise it is
  \<open>a \<le> t\<close> or \<open>t < b\<close>.  For 09:00 to 17:00 exactly the minutes 540 to 1019 are
  suppressed, so 08:59 and 17:00 are not; for 22:00 to 06:00, 23:00 and 05:00 are
  suppressed, 06:00 and 21:59 are not.
\<close>

theorem isOffHours_window:
  "isOffHours None now = False
   \<and> (\<forall>s e h m. timeRegex s \<longrightarrow> timeRegex e \<longrightarrow>
        isOffHours (Some \<lparr>oh_start = s, oh_end = e\<rparr>) (h, m) =
          (if minute_of_day s \<le> minute_of_day e
           then minute_of_day s \<le> h * 60 + m \<and> h * 60 + m < minute_of_day e
           else minute_of_day s \<le> h * 60 + m \<or> h * 60 + m < minute_of_day e))
   \<and> (\<forall>h m. isOffHours (Some \<lparr>oh_start = ''09:00'', oh_end = ''17:00''\<rparr>) (h, m) =
          (540 \<le> h * 60 + m \<and> h * 60 + m \<le> 1019))
   \<and> \<not> isOffHours (Some \<lparr>oh_start = ''09:00'', oh_end = ''17:00''\<rparr>) (8, 59)
   \<and> \<not> isOffHours (Some \<lparr>oh_start = ''09:00'', oh_end = ''17:00''\<rparr>) (17, 0)
   \<and> isOffHours (Some \<lparr>oh_start = ''22:00'', oh_end = ''06:00''\<rparr>) (23, 0)
   \<and> isOffHours (Some \<lparr>oh_start = ''22:00'', oh_end = ''06:00''\<rparr>) (5, 0)
   \<and> \<not> isOffHours (Some \<lparr>oh_start = ''22:00'', oh_end = ''06:00''\<rparr>) (6, 0)
   \<and> \<not> isOffHours (Some \<lparr>oh_start = ''22:00'', oh_end = ''06:00''\<rparr>) (21, 59)"
proof -
  have v: "timeRegex ''09:00''" "timeRegex ''17:00''" "timeRegex ''22:00''" "timeRegex ''06:00''"
    by (simp_all add: is_digit_def)
  have a: "isOffHours None now = False"
    by (simp add: isOffHours_def)
  have b: "\<forall>s e h m. timeRegex s \<longrightarrow> timeRegex e \<longrightarrow>
        isOffHours (Some \<lparr>oh_start = s, oh_end = e\<rparr>) (h, m) =
          (if minute_of_day s \<le> minute_of_day e
           then minute_of_day s \<le> h * 60 + m \<and> h * 60 + m < minute_of_day e
           else minute_of_day s \<le> h * 60 + m \<or> h * 60 + m < minute_of_day e)"
    using isOffHours_valid by blast
  have day: "isOffHours (Some \<lparr>oh_start = ''09:00'', oh_end = ''17:00''\<rparr>) (h, m) =
      (540 \<le> h * 60 + m \<and> h * 60 + m \<le> 1019)" for h m
    using isOffHours_valid [OF v(1) v(2), of h m] by (auto simp: digit_val_def)
  have night: "isOffHours (Some \<lparr>oh_start = ''22:00'', oh_end = ''06:00''\<rparr>) (h, m) =
      (1320 \<le> h * 60 + m \<or> h * 60 + m < 360)" for h m
    using isOffHours_valid [OF v(3) v(4), of h m] by (auto simp: digit_val_def)
  have c: "\<forall>h m. isOffHours (Some \<lparr>oh_start = ''09:00'', oh_end = ''17:00''\<rparr>) (h, m) =
          (540 \<le> h * 60 + m \<and> h * 60 + m \<le> 1019)"
    using day by blast
  show ?thesis
    by (intro conjI a b c) (simp_all add: day night)
qed

theorem isOffHours_window_witness:
  "timeRegex ''22:00'' \<and> timeRegex ''6:30''
   \<and> isOffHours (Some \<lparr>oh_start = ''22:00'', oh_end = ''6:30''\<rparr>) (23, 15)
   \<and> isOffHours (Some \<lparr>oh_start = ''22:00'', oh_end = ''6:30''\<rparr>) (6, 29)
   \<and> \<not> isOffHours (Some \<lparr>oh_start = ''22:00'', oh_end = ''6:30''\<rparr>) (6, 30)
   \<and> isOffHours (Some \<lparr>oh_start = ''09:00'', oh_end = ''17:00''\<rparr>) (16, 59)"
proof -
  have v: "timeRegex ''22:00''" "timeRegex ''6:30''"
    by (simp_all add: is_digit_def)
  from isOffHours_window have
    g: "\<And>s e h m. timeRegex s \<Longrightarrow> timeRegex e \<Longrightarrow>
        isOffHours (Some \<lparr>oh_start = s, oh_end = e\<rparr>) (h, m) =
          (if minute_of_day s \<le> minute_of_day e
           then minute_of_day s \<le> h * 60 + m \<and> h * 60 + m < minute_of_day e
           else minute_of_day s \<le> h * 60 + m \<or> h * 60 + m < minute_of_day e)"
    and w: "\<And>h m. isOffHours (Some \<lparr>oh_start = ''09:00'', oh_end = ''17:00''\<rparr>) (h, m) =
          (540 \<le> h * 60 + m \<and> h * 60 + m \<le> 1019)"
    by blast+
  show ?thesis
    using v by (simp add: g [OF v] w digit_val_def)
qed

section \<open>Properties of the operation queue\<close>

lemma queue_inv_new: "queue_inv new_queue"
  by (simp add: queue_inv_def new_queue_def)

lemma queue_inv_loop_head:
  assumes "processing s" "running s = []"
    "begun s @ map (\<lambda>t. (t, passes s)) (queue s) = submitted s"
  shows "queue_inv (loop_head s)"
  using assms by (cases "queue s") (auto simp: queue_inv_def loop_head_def)

lemma queue_inv_enqueue: "queue_inv s \<Longrightarrow> queue_inv (enqueue t s)"
  unfolding enqueue_def processQueue_def
  by (cases "processing s")
     (auto simp: queue_inv_def intro!: queue_inv_loop_head [unfolded queue_inv_def] simp: loop_head_def)

lemma queue_inv_settle: "queue_inv s \<Longrightarrow> queue_inv (settle t ok s)"
proof (cases "t \<in> set (running s)")
  case False
  assume "queue_inv s"
  with False show ?thesis by (simp add: settle_def)
next
  case True
  assume i: "queue_inv s"
  with True have r: "running s = [t]"
    by (cases "running s") (auto simp: queue_inv_def)
  have "queue_inv (loop_head (s\<lparr>running := remove1 t (running s), settled := settled s @ [(t, ok)]\<rparr>))"
    using i r by (intro queue_inv_loop_head) (auto simp: queue_inv_def)
  with True show ?thesis by (simp add: settle_def)
qed

lemma queue_inv_step: "queue_inv s \<Longrightarrow> queue_inv (queue_step s e)"
  by (cases e) (simp_all add: queue_inv_enqueue queue_inv_settle)

lemma queue_inv_run: "queue_inv (run_queue evs)"
  unfolding run_queue_def
  by (induction evs rule: rev_induct) (simp_all add: queue_inv_new queue_inv_step)

lemma enqueued_append:
  "enqueued (evs @ [e]) = enqueued evs @ (case e of Enqueue t \<Rightarrow> [t] | Settle t ok \<Rightarrow> [])"
  by (induction evs rule: enqueued.induct) (auto split: queue_event.splits)

lemma submitted_loop_head: "submitted (loop_head s) = submitted s"
  by (simp add: loop_head_def split: list.splits)

lemma passes_loop_head: "passes (loop_head s) = passes s"
  by (simp add: loop_head_def split: list.splits)

lemma submitted_step:
  "map fst (submitted (queue_step s e)) =
     map fst (submitted s) @ (case e of Enqueue t \<Rightarrow> [t] | Settle t ok \<Rightarrow> [])"
  by (cases e) (auto simp: enqueue_def processQueue_def settle_def submitted_loop_head)

lemma submitted_run: "map fst (submitted (run_queue evs)) = enqueued evs"
  unfolding run_queue_def
  by (induction evs rule: rev_induct) (simp_all add: new_queue_def submitted_step enqueued_append)

lemma settle_rounds_drains:
  "queue_inv s \<Longrightarrow> length (queue s) + length (running s) \<le> n \<Longrightarrow>
     queue (settle_rounds n s) = [] \<and> running (settle_rounds n s) = []
     \<and> \<not> processing (settle_rounds n s)
     \<and> passes (settle_rounds n s) = passes s
     \<and> submitted (settle_rounds n s) = submitted s
     \<and> begun (settle_rounds n s) = submitted s"
proof (induction n arbitrary: s)
  case 0
  then show ?case by (auto simp: queue_inv_def)
next
  case (Suc n)
  show ?case
  proof (cases "running s")
    case Nil
    with Suc.prems show ?thesis by (auto simp: queue_inv_def)
  next
    case (Cons t ts)
    with Suc.prems have ts: "ts = []" by (auto simp: queue_inv_def)
    let ?s = "settle t True s"
    have i: "queue_inv ?s" using Suc.prems(1) by (rule queue_inv_settle)
    have m: "length (queue ?s) + length (running ?s) \<le> n"
      using Suc.prems(2) Cons ts
      by (cases "queue s") (auto simp: settle_def loop_head_def)
    have k: "passes ?s = passes s" "submitted ?s = submitted s"
      using Cons by (auto simp: settle_def passes_loop_head submitted_loop_head)
    from Suc.IH [OF i m] Cons k show ?thesis by simp
  qed
qed

text \<open>
  Claim C1.  After any sequence of \<^verbatim>\<open>enqueue\<close> calls and task completions: at most one
  task is running, and \<^verbatim>\<open>processing\<close> is set exactly while one is; the tasks begun so far
  followed by the waiting ones are the submitted tasks in submission order; the worker
  is active whenever a task waits, and each task begins in the drain pass recorded at
  its push (the pass in progress, or the one the push starts).  A push during a drain
  starts no new pass and leaves the task in the queue of the current one; and when the
  running tasks settle one after the other the same pass empties the queue, having begun
  every submitted task in order, and only then clears \<^verbatim>\<open>processing\<close>.
\<close>

theorem queue_serial_fifo_drain:
  "length (running (run_queue evs)) \<le> 1
   \<and> processing (run_queue evs) = (running (run_queue evs) \<noteq> [])
   \<and> (processing (run_queue evs) \<or> queue (run_queue evs) = [])
   \<and> map fst (begun (run_queue evs)) @ queue (run_queue evs) = enqueued evs
   \<and> begun (run_queue evs) @ map (\<lambda>t. (t, passes (run_queue evs))) (queue (run_queue evs))
       = submitted (run_queue evs)
   \<and> (processing (run_queue evs) \<longrightarrow>
        processing (enqueue t (run_queue evs))
        \<and> passes (enqueue t (run_queue evs)) = passes (run_queue evs)
        \<and> queue (enqueue t (run_queue evs)) = queue (run_queue evs) @ [t])
   \<and> (length (queue (run_queue evs)) + length (running (run_queue evs)) \<le> n \<longrightarrow>
        queue (settle_rounds n (run_queue evs)) = []
        \<and> \<not> processing (settle_rounds n (run_queue evs))
        \<and> passes (settle_rounds n (run_queue evs)) = passes (run_queue evs)
        \<and> map fst (begun (settle_rounds n (run_queue evs))) = enqueued evs)"
proof -
  let ?s = "run_queue evs"
  have i: "queue_inv ?s" by (rule queue_inv_run)
  have f: "map fst (begun ?s) @ queue ?s = enqueued evs"
  proof -
    have "map fst (begun ?s @ map (\<lambda>t. (t, passes ?s)) (queue ?s)) = map fst (submitted ?s)"
      using i by (simp add: queue_inv_def)
    then show ?thesis by (simp add: submitted_run comp_def)
  qed
  have e: "processing ?s \<Longrightarrow> processing (enqueue t ?s) \<and> passes (enqueue t ?s) = passes ?s
        \<and> queue (enqueue t ?s) = queue ?s @ [t]"
    by (simp add: enqueue_def processQueue_def)
  have d: "length (queue ?s) + length (running ?s) \<le> n \<Longrightarrow>
        queue (settle_rounds n ?s) = []
        \<and> \<not> processing (settle_rounds n ?s)
        \<and> passes (settle_rounds n ?s) = passes ?s
        \<and> map fst (begun (settle_rounds n ?s)) = enqueued evs"
    using settle_rounds_drains [OF i, of n] by (simp add: submitted_run)
  from i f e d show ?thesis
    unfolding queue_inv_def by blast
qed

theorem queue_serial_fifo_drain_witness:
  "processing (run_queue [Enqueue (11::nat), Enqueue 12, Settle 11 False, Enqueue 13])
   \<and> running (run_queue [Enqueue (11::nat), Enqueue 12, Settle 11 False, Enqueue 13]) = [12]
   \<and> queue (enqueue 14 (run_queue [Enqueue (11::nat), Enqueue 12, Settle 11 False, Enqueue 13]))
       = [13, 14]
   \<and> passes (enqueue 14 (run_queue [Enqueue (11::nat), Enqueue 12, Settle 11 False, Enqueue 13])) = 1
   \<and> begun (settle_rounds 2 (run_queue [Enqueue (11::nat), Enqueue 12, Settle 11 False, Enqueue 13]))
       = [(11, 1), (12, 1), (13, 1)]
   \<and> \<not> processing
         (settle_rounds 2 (run_queue [Enqueue (11::nat), Enqueue 12, Settle 11 False, Enqueue 13]))"
proof -
  have r: "run_queue [Enqueue (11::nat), Enqueue 12, Settle 11 False, Enqueue 13] =
      \<lparr>queue = [13], processing = True, running = [12], passes = 1,
       submitted = [(11, 1), (12, 1), (13, 1)], begun = [(11, 1), (12, 1)],
       settled = [(11, False)]\<rparr>"
    by (simp add: run_queue_def new_queue_def enqueue_def processQueue_def settle_def loop_head_def)
  have b: "begun (settle_rounds 2 (run_queue [Enqueue (11::nat), Enqueue 12, Settle 11 False, Enqueue 13]))
       = [(11, 1), (12, 1), (13, 1)]"
    unfolding r by (simp add: numeral_2_eq_2 settle_def loop_head_def)
  show ?thesis
    using queue_serial_fifo_drain [of "[Enqueue (11::nat), Enqueue 12, Settle 11 False, Enqueue 13]" 14 2] b
    by (simp add: r)
qed

section \<open>Properties of the browser session\<close>

lemmas io_defs = io_return_def io_throw_def io_bind_def io_catch_def modify_def call_def call_quiet_def

lemmas nav_defs = navigatePageDirect_def navigate_body_def after_load_def getPage_def apply_viewport_def
  needs_viewport_def load_target_def nav_case_of_def open_page_def dismiss_toast_def wait_loaded_def
  update_language_def update_theme_def final_wait_def applied_wait_def js_differs_def
  response_ok_def truthy_str_def Let_def

lemmas shot_defs = screenshotPageDirect_def screenshot_body_def encode_image_def to_buffer_def
  bmp_encode_def sharp_pipeline_def bitsPerPixel_def truthy_int_def getPage_def Let_def

lemma header_height_zoom_1: "js_round HEADER_HEIGHT = 56"
  unfolding js_round_def HEADER_HEIGHT_def by (rule floor_unique) simp_all

subsection \<open>What an operation adds to the trace\<close>















subsection \<open>Navigation to the cached path\<close>




lemma navigatePageDirect_body:
  "navigatePageDirect env p s = navigate_body env p (with_header p) s"
  by (simp add: navigatePageDirect_def with_header_def Let_def io_catch_def io_throw_def
           split: prod.splits sum.splits)


lemma call_q:
  "throws env = (\<lambda>a. None) \<Longrightarrow> call env a s = (Inr (), s\<lparr>performed := performed s @ [a]\<rparr>)"
  by (simp add: call_def)

lemma getPage_q:
  "throws env = (\<lambda>a. None) \<Longrightarrow>
     getPage env s =
       (Inr (), if has_page s then s
                else s\<lparr>performed := performed s @ [Launch], has_page := True\<rparr>)"
  by (simp add: getPage_def call_q io_bind_def io_return_def modify_def)

lemma apply_viewport_q:
  "throws env = (\<lambda>a. None) \<Longrightarrow>
     apply_viewport env vp s =
       (Inr (), if needs_viewport s vp
                then s\<lparr>performed := performed s @ [SetViewport (width vp) (height vp)],
                       page_viewport := Some vp\<rparr>
                else s)"
  by (simp add: apply_viewport_def call_q io_bind_def io_return_def modify_def)

lemma dismiss_toast_q:
  "throws env = (\<lambda>a. None) \<Longrightarrow> c \<noteq> FirstLoad \<Longrightarrow>
     dismiss_toast env p c s =
       (Inr (if toast env then 1000 else 0),
        s\<lparr>performed := performed s
             @ DismissToast (zoom p) # (if toast env then [] else [SetZoom (zoom p)])\<rparr>)"
  by (simp add: dismiss_toast_def call_q io_bind_def io_return_def)

lemma dismiss_toast_first_q:
  "throws env = (\<lambda>a. None) \<Longrightarrow>
     dismiss_toast env p FirstLoad s = (Inr 0, s\<lparr>performed := performed s @ [SetZoom (zoom p)]\<rparr>)"
  by (simp add: dismiss_toast_def call_q io_bind_def io_return_def)

lemma wait_loaded_q:
  "throws env = (\<lambda>a. None) \<Longrightarrow>
     wait_loaded env s = (Inr (), s\<lparr>performed := performed s @ [WaitForLoaded]\<rparr>)"
  by (simp add: wait_loaded_def call_q io_catch_def)

lemma update_language_q:
  "throws env = (\<lambda>a. None) \<Longrightarrow>
     update_language env p s =
       (if lang p \<noteq> lastRequestedLang s
        then (Inr 1000, s\<lparr>performed := performed s @
                 [SelectLanguage (if truthy_str (lang p) then the (lang p) else ''en'')],
               lastRequestedLang := lang p\<rparr>)
        else (Inr 0, s))"
  by (simp add: update_language_def call_q io_bind_def io_return_def modify_def)

lemma update_theme_q:
  "throws env = (\<lambda>a. None) \<Longrightarrow>
     update_theme env p s =
       (if theme p \<noteq> lastRequestedTheme s \<or> Some (dark p) \<noteq> lastRequestedDarkMode s
        then (Inr 500, s\<lparr>performed := performed s @
                 [SetTheme (if truthy_str (theme p) then the (theme p) else []) (dark p)],
               lastRequestedTheme := theme p, lastRequestedDarkMode := Some (dark p)\<rparr>)
        else (Inr 0, s))"
  by (simp add: update_theme_def call_q io_bind_def io_return_def modify_def)

lemma final_wait_q:
  "final_wait p w s =
     (Inr (), if applied_wait p w \<noteq> 0
              then s\<lparr>performed := performed s @ [Delay (applied_wait p w)]\<rparr> else s)"
  by (simp add: final_wait_def call_quiet_def io_return_def)









text \<open>
  Claim C3 at a failing input.  The session shows \<^verbatim>\<open>/a\<close>; a request for \<^verbatim>\<open>/b\<close> is answered
  with status 404.  \<^verbatim>\<open>_navigatePage\<close> throws \<^verbatim>\<open>CannotOpenPageError\<close> and the cached path is
  still \<^verbatim>\<open>/a\<close>, so the next request for \<^verbatim>\<open>/a\<close> is treated as already loaded and loads
  nothing.
\<close>

theorem failed_transition_keeps_cached_path:
  "navigatePageDirect (quiet_env 404 False) (basic_params ''/b'') (on_page ''/a'') =
     (Inl (CannotOpenPageError 404 ''http://ha:8123/b''),
      (on_page ''/a'')\<lparr>performed := [EvaluateOnNewDocument, Goto ''http://ha:8123/b'' True]\<rparr>)
   \<and> lastRequestedPath
        (snd (navigatePageDirect (quiet_env 404 False) (basic_params ''/b'') (on_page ''/a'')))
       = Some ''/a''
   \<and> navigatePageDirect (quiet_env 200 False) (basic_params ''/a'')
        (snd (navigatePageDirect (quiet_env 404 False) (basic_params ''/b'') (on_page ''/a''))) =
     (Inr \<lparr>width = Some 800, height = Some 656\<rparr>,
      (on_page ''/a'')\<lparr>performed := [EvaluateOnNewDocument, Goto ''http://ha:8123/b'' True,
                                         DismissToast 1, SetZoom 1, WaitForLoaded]\<rparr>)"
proof -
  have a: "navigatePageDirect (quiet_env 404 False) (basic_params ''/b'') (on_page ''/a'') =
     (Inl (CannotOpenPageError 404 ''http://ha:8123/b''),
      (on_page ''/a'')\<lparr>performed := [EvaluateOnNewDocument, Goto ''http://ha:8123/b'' True]\<rparr>)"
    by (simp add: nav_defs io_defs quiet_env_def basic_params_def on_page_def ha_url_def
        header_height_zoom_1)
  have b: "navigatePageDirect (quiet_env 200 False) (basic_params ''/a'')
        ((on_page ''/a'')\<lparr>performed := [EvaluateOnNewDocument, Goto ''http://ha:8123/b'' True]\<rparr>) =
     (Inr \<lparr>width = Some 800, height = Some 656\<rparr>,
      (on_page ''/a'')\<lparr>performed := [EvaluateOnNewDocument, Goto ''http://ha:8123/b'' True,
                                         DismissToast 1, SetZoom 1, WaitForLoaded]\<rparr>)"
    by (simp add: nav_defs io_defs quiet_env_def basic_params_def on_page_def ha_url_def
        header_height_zoom_1)
  show ?thesis
    unfolding a by (simp add: b) (simp add: on_page_def)
qed

subsection \<open>Capture errors\<close>

lemma call_error: "call env a s = (Inl e, s1) \<Longrightarrow> throws env a = Some e \<and> s1 = s\<lparr>performed := performed s @ [a]\<rparr>"
  by (auto simp: call_def split: option.splits)

lemma call_result: "call env a s = (Inr u, s1) \<Longrightarrow> s1 = s\<lparr>performed := performed s @ [a]\<rparr>"
  by (auto simp: call_def split: option.splits)

lemma to_buffer_error:
  "to_buffer env c ops s = (Inl e, s1) \<Longrightarrow> throws env (last (performed s1)) = Some e \<and> performed s1 \<noteq> []"
  by (auto simp: to_buffer_def io_bind_def io_return_def call_def split: option.splits)

lemma bmp_encode_error:
  "bmp_encode env c ops bits s = (Inl e, s1) \<Longrightarrow> throws env (last (performed s1)) = Some e \<and> performed s1 \<noteq> []"
  by (auto simp: bmp_encode_def io_bind_def io_return_def call_def split: option.splits)

lemma encode_image_error:
  "encode_image env p c s = (Inl e, s1) \<Longrightarrow> throws env (last (performed s1)) = Some e \<and> performed s1 \<noteq> []"
  unfolding encode_image_def Let_def
  by (auto dest: to_buffer_error bmp_encode_error split: if_splits)

lemma getPage_error:
  "getPage env s = (Inl e, s1) \<Longrightarrow> throws env (last (performed s1)) = Some e \<and> performed s1 \<noteq> []"
  by (auto simp: getPage_def io_defs split: option.splits if_splits)

lemma screenshot_body_error:
  assumes "screenshot_body env p s = (Inl e, s1)"
  shows "throws env (last (performed s1)) = Some e \<and> performed s1 \<noteq> []"
proof -
  let ?c = "\<lparr>shot_type = (if truthy_int (einkColors p) \<or> format p = ''bmp'' then ''png''
                             else format p),
               clip_x = 0, clip_y = js_round (HEADER_HEIGHT * zoom p),
               clip_width = width (viewport p),
               clip_height = map_option (\<lambda>h. h - js_round (HEADER_HEIGHT * zoom p)) (height (viewport p))\<rparr>"
  have b: "screenshot_body env p = io_bind (getPage env) (\<lambda>_. io_bind (call env (Screenshot ?c)) (\<lambda>_. encode_image env p ?c))"
    by (simp add: screenshot_body_def Let_def)
  obtain r1 s' where g: "getPage env s = (r1, s')" by (cases "getPage env s")
  show ?thesis
  proof (cases r1)
    case (Inl e')
    with assms g have "e' = e" "s' = s1" by (simp_all add: b io_bind_def)
    with g Inl show ?thesis using getPage_error by blast
  next
    case r1: (Inr u)
    obtain r2 s'' where k: "call env (Screenshot ?c) s' = (r2, s'')"
      by (cases "call env (Screenshot ?c) s'")
    show ?thesis
    proof (cases r2)
      case (Inl e')
      with assms g r1 k have "e' = e" "s'' = s1" by (simp_all add: b io_bind_def)
      with k Inl show ?thesis by (auto dest: call_error)
    next
      case (Inr u')
      with assms g r1 k have "encode_image env p ?c s'' = (Inl e, s1)" by (simp add: b io_bind_def)
      then show ?thesis by (rule encode_image_error)
    qed
  qed
qed

text \<open>
  Claim C7.  Every error of the \<^verbatim>\<open>try\<close> block of \<^verbatim>\<open>_screenshotPage\<close> (it is the error of
  the last call made) leaves the function as that same error, with \<^verbatim>\<open>lastRequestedPath\<close>
  cleared and nothing else changed; a result leaves the state as the block left it; and
  whenever \<^verbatim>\<open>_screenshotPage\<close> throws, the cached path has been cleared.
\<close>

theorem capture_error_resets_path:
  "(\<forall>e s1. screenshot_body env p s = (Inl e, s1) \<longrightarrow>
       screenshotPageDirect env p s = (Inl e, s1\<lparr>lastRequestedPath := None\<rparr>)
       \<and> throws env (last (performed s1)) = Some e)
   \<and> (\<forall>img s1. screenshot_body env p s = (Inr img, s1) \<longrightarrow>
       screenshotPageDirect env p s = (Inr img, s1))
   \<and> (\<forall>e s'. screenshotPageDirect env p s = (Inl e, s') \<longrightarrow>
       lastRequestedPath s' = None
       \<and> (\<exists>s1. screenshot_body env p s = (Inl e, s1) \<and> s' = s1\<lparr>lastRequestedPath := None\<rparr>))"
proof (intro conjI allI impI)
  fix e s1 assume "screenshot_body env p s = (Inl e, s1)"
  then show "screenshotPageDirect env p s = (Inl e, s1\<lparr>lastRequestedPath := None\<rparr>)"
    by (simp add: screenshotPageDirect_def io_catch_def io_bind_def modify_def io_throw_def)
next
  fix e s1 assume "screenshot_body env p s = (Inl e, s1)"
  then show "throws env (last (performed s1)) = Some e"
    using screenshot_body_error by blast
next
  fix img s1 assume "screenshot_body env p s = (Inr img, s1)"
  then show "screenshotPageDirect env p s = (Inr img, s1)"
    by (simp add: screenshotPageDirect_def io_catch_def)
next
  fix e s' assume a: "screenshotPageDirect env p s = (Inl e, s')"
  then show "lastRequestedPath s' = None"
    by (auto simp: screenshotPageDirect_def io_catch_def io_bind_def modify_def io_throw_def
             split: prod.splits sum.splits)
  from a show "\<exists>s1. screenshot_body env p s = (Inl e, s1) \<and> s' = s1\<lparr>lastRequestedPath := None\<rparr>"
    by (auto simp: screenshotPageDirect_def io_catch_def io_bind_def modify_def io_throw_def
             split: prod.splits sum.splits)
qed

theorem capture_error_resets_path_witness:
  "screenshot_body (shot_fails_env ''Protocol error'') (basic_params ''/a'') (on_page ''/a'')
     = (Inl (JsError ''Protocol error''),
        (on_page ''/a'')\<lparr>performed :=
           [Screenshot \<lparr>shot_type = ''png'', clip_x = 0, clip_y = 56,
                        clip_width = Some 800, clip_height = Some 544\<rparr>]\<rparr>)
   \<and> lastRequestedPath (on_page ''/a'') = Some ''/a''
   \<and> screenshotPageDirect (shot_fails_env ''Protocol error'') (basic_params ''/a'') (on_page ''/a'')
     = (Inl (JsError ''Protocol error''),
        (on_page ''/a'')\<lparr>lastRequestedPath := None, performed :=
           [Screenshot \<lparr>shot_type = ''png'', clip_x = 0, clip_y = 56,
                        clip_width = Some 800, clip_height = Some 544\<rparr>]\<rparr>)"
proof -
  have b: "screenshot_body (shot_fails_env ''Protocol error'') (basic_params ''/a'') (on_page ''/a'')
     = (Inl (JsError ''Protocol error''),
        (on_page ''/a'')\<lparr>performed :=
           [Screenshot \<lparr>shot_type = ''png'', clip_x = 0, clip_y = 56,
                        clip_width = Some 800, clip_height = Some 544\<rparr>]\<rparr>)"
    by (simp add: shot_defs io_defs shot_fails_env_def basic_params_def on_page_def
        header_height_zoom_1)
  from capture_error_resets_path [of "shot_fails_env ''Protocol error''" "basic_params ''/a''"
      "on_page ''/a''"] b
  have "screenshotPageDirect (shot_fails_env ''Protocol error'') (basic_params ''/a'') (on_page ''/a'')
     = (Inl (JsError ''Protocol error''),
        (on_page ''/a'')\<lparr>performed :=
           [Screenshot \<lparr>shot_type = ''png'', clip_x = 0, clip_y = 56,
                        clip_width = Some 800, clip_height = Some 544\<rparr>]\<rparr>\<lparr>lastRequestedPath := None\<rparr>)"
    by blast
  with b show ?thesis by (simp add: on_page_def)
qed

subsection \<open>The image pipeline\<close>

text \<open>
  Claim C8.  For the format \<^verbatim>\<open>bmp\<close> the image is handed to the bitmap encoder with 1 bit
  for 2 colours, 2 bits for 4, 4 bits for 16, 8 bits for 256 and for every other colour
  count that is given, and with 24 bits without \<^verbatim>\<open>einkColors\<close> (\<^verbatim>\<open>undefined\<close>, or the falsy
  0 that \<^verbatim>\<open>if (einkColors)\<close> treats alike); the encoder is constructed with exactly that
  depth.
\<close>

theorem bmp_bit_depth:
  "format p = ''bmp'' \<longrightarrow>
     (einkColors p = Some 2 \<longrightarrow>
        encode_image env p c = bmp_encode env c (sharp_pipeline p @ [ToColourspace ''b-w'']) 1)
     \<and> (einkColors p = Some 4 \<longrightarrow> encode_image env p c = bmp_encode env c (sharp_pipeline p) 2)
     \<and> (einkColors p = Some 16 \<longrightarrow> encode_image env p c = bmp_encode env c (sharp_pipeline p) 4)
     \<and> (einkColors p = Some 256 \<longrightarrow> encode_image env p c = bmp_encode env c (sharp_pipeline p) 8)
     \<and> (truthy_int (einkColors p) \<and> einkColors p \<noteq> Some 2 \<and> einkColors p \<noteq> Some 4
          \<and> einkColors p \<noteq> Some 16 \<longrightarrow>
           encode_image env p c = bmp_encode env c (sharp_pipeline p) 8)
     \<and> (\<not> truthy_int (einkColors p) \<longrightarrow>
           encode_image env p c = bmp_encode env c (sharp_pipeline p) 24)
     \<and> (\<forall>ops bits s. throws env = (\<lambda>a. None) \<longrightarrow>
           bmp_encode env c ops bits s =
             (Inr (BmpFile bits c (ops @ [Raw])),
              s\<lparr>performed := performed s @ [ToBuffer (ops @ [Raw]), BmpEncode bits]\<rparr>))"
  by (auto simp: encode_image_def bitsPerPixel_def truthy_int_def Let_def bmp_encode_def
        io_bind_def io_return_def call_def)

theorem bmp_bit_depth_witness:
  "format ((basic_params ''/a'')\<lparr>format := ''bmp'', einkColors := Some 4\<rparr>) = ''bmp''
   \<and> einkColors ((basic_params ''/a'')\<lparr>format := ''bmp'', einkColors := Some 4\<rparr>) = Some 4
   \<and> throws (quiet_env 200 False) = (\<lambda>a. None)
   \<and> encode_image (quiet_env 200 False)
        ((basic_params ''/a'')\<lparr>format := ''bmp'', einkColors := Some 4\<rparr>) basic_capture (on_page ''/a'')
       = (Inr (BmpFile 2 basic_capture [Raw]),
          (on_page ''/a'')\<lparr>performed := [ToBuffer [Raw], BmpEncode 2]\<rparr>)"
proof -
  have a: "format ((basic_params ''/a'')\<lparr>format := ''bmp'', einkColors := Some 4\<rparr>) = ''bmp''"
    "einkColors ((basic_params ''/a'')\<lparr>format := ''bmp'', einkColors := Some 4\<rparr>) = Some 4"
    "throws (quiet_env 200 False) = (\<lambda>a. None)"
    "sharp_pipeline ((basic_params ''/a'')\<lparr>format := ''bmp'', einkColors := Some 4\<rparr>) = []"
    by (simp_all add: basic_params_def quiet_env_def sharp_pipeline_def truthy_int_def)
  from bmp_bit_depth [of "(basic_params ''/a'')\<lparr>format := ''bmp'', einkColors := Some 4\<rparr>"
      "quiet_env 200 False" basic_capture] a
  have "encode_image (quiet_env 200 False)
        ((basic_params ''/a'')\<lparr>format := ''bmp'', einkColors := Some 4\<rparr>) basic_capture
       = bmp_encode (quiet_env 200 False) basic_capture [] 2"
    and "bmp_encode (quiet_env 200 False) basic_capture [] 2 (on_page ''/a'') =
             (Inr (BmpFile 2 basic_capture ([] @ [Raw])),
              (on_page ''/a'')\<lparr>performed := performed (on_page ''/a'') @ [ToBuffer ([] @ [Raw]), BmpEncode 2]\<rparr>)"
    by auto
  with a show ?thesis by (simp add: on_page_def)
qed

lemma encode_image_q:
  "throws env = (\<lambda>a. None) \<Longrightarrow> \<exists>img s'. encode_image env p c s = (Inr img, s')"
  by (simp add: encode_image_def to_buffer_def bmp_encode_def call_q io_bind_def io_return_def Let_def)

lemma screenshotPageDirect_q:
  assumes q: "throws env = (\<lambda>a. None)"
  shows "\<exists>img s'. screenshotPageDirect env p s = (Inr img, s')"
proof -
  have "\<exists>img s'. screenshot_body env p s = (Inr img, s')"
    using encode_image_q [OF q]
    by (simp add: screenshot_body_def Let_def io_bind_def getPage_q [OF q] call_q [OF q])
  then show ?thesis
    by (auto simp: screenshotPageDirect_def io_catch_def)
qed

lemma screenshot_body_clip:
  "screenshot_body env p =
     io_bind (getPage env) (\<lambda>_. io_bind (call env (Screenshot (clip_of p)))
       (\<lambda>_. encode_image env p (clip_of p)))"
  by (simp add: screenshot_body_def clip_of_def Let_def)

lemma screenshotPageDirect_result:
  assumes "screenshotPageDirect env p s = (Inr img, s')"
  shows "\<exists>s1. encode_image env p (clip_of p) s1 = (Inr img, s')"
  using assms
  by (auto simp: screenshotPageDirect_def screenshot_body_clip io_catch_def io_bind_def
        modify_def io_throw_def split: prod.splits sum.splits)

lemma to_buffer_result:
  "to_buffer env c ops s = (Inr img, s') \<Longrightarrow> img = SharpBuffer c ops"
  by (auto simp: to_buffer_def io_bind_def io_return_def call_def split: option.splits)

lemma bmp_encode_result:
  "bmp_encode env c ops bits s = (Inr img, s') \<Longrightarrow> img = BmpFile bits c (ops @ [Raw])"
  by (auto simp: bmp_encode_def io_bind_def io_return_def call_def split: option.splits)

lemma encode_image_two:
  assumes "einkColors p = Some 2" and "encode_image env p c s = (Inr img, s')"
  shows "img = (if format p = ''bmp'' then BmpFile 1 c (two_colour_calls p @ [Raw])
                else SharpBuffer c (two_colour_calls p
                       @ [if format p = ''jpeg'' then Jpeg
                          else if format p = ''webp'' then Webp else Png (Some 2)]))"
  using assms
  by (auto simp: encode_image_def truthy_int_def Let_def bitsPerPixel_def sharp_pipeline_def
        two_colour_calls_def dest!: to_buffer_result bmp_encode_result split: if_splits)

lemma two_colour_tone:
  "out \<in> {Raw, Jpeg, Webp, Png k} \<Longrightarrow> sharp_frame rot (two_colour_calls p @ [out]) f
     = map (map (\<lambda>v. if (220 \<le> v) = invert p then black else white))
         (if truthy_int (rotate_deg p) then rot (the (rotate_deg p)) f else f)"
  by (auto simp: sharp_frame_def two_colour_calls_def black_def white_def)

text \<open>
  Claim C9.  For two colours every result of \<^verbatim>\<open>_screenshotPage\<close> is the captured frame
  after, in this order, the rotation (if one is asked for),
  \<^verbatim>\<open>threshold(220, {greyscale: true})\<close>, \<^verbatim>\<open>negate\<close> if \<^verbatim>\<open>invert\<close> is set, and
  \<^verbatim>\<open>toColourspace("b-w")\<close>, encoded as a bitmap of depth 1 or in the requested format.
  So every sample of the (rotated) frame is white exactly if it is at least 220, and the
  reverse under \<^verbatim>\<open>invert\<close>: without a rotation the frame 200, 230 becomes black, white,
  and white, black under \<^verbatim>\<open>invert\<close>.  A result is returned when no call throws.
\<close>

theorem two_colour_pipeline:
  "einkColors p = Some 2 \<longrightarrow>
     (\<forall>img s'. screenshotPageDirect env p s = (Inr img, s') \<longrightarrow>
        img = (if format p = ''bmp'' then BmpFile 1 (clip_of p) (two_colour_calls p @ [Raw])
               else SharpBuffer (clip_of p) (two_colour_calls p
                      @ [if format p = ''jpeg'' then Jpeg
                         else if format p = ''webp'' then Webp else Png (Some 2)]))
        \<and> image_frame rot src img
            = map (map (\<lambda>v. if (220 \<le> v) = invert p then black else white))
                (if truthy_int (rotate_deg p) then rot (the (rotate_deg p)) (src (clip_of p))
                 else src (clip_of p))
        \<and> (\<not> truthy_int (rotate_deg p) \<and> src (clip_of p) = [[200, 230]] \<longrightarrow>
             image_frame rot src img = [if invert p then [white, black] else [black, white]]))
     \<and> (throws env = (\<lambda>a. None) \<longrightarrow> (\<exists>img s'. screenshotPageDirect env p s = (Inr img, s')))"
proof (intro impI conjI allI)
  fix img s'
  assume two: "einkColors p = Some 2" and r: "screenshotPageDirect env p s = (Inr img, s')"
  from screenshotPageDirect_result [OF r] obtain s1 where
    "encode_image env p (clip_of p) s1 = (Inr img, s')" by blast
  from encode_image_two [OF two this]
  show i: "img = (if format p = ''bmp'' then BmpFile 1 (clip_of p) (two_colour_calls p @ [Raw])
               else SharpBuffer (clip_of p) (two_colour_calls p
                      @ [if format p = ''jpeg'' then Jpeg
                         else if format p = ''webp'' then Webp else Png (Some 2)]))" .
  show f: "image_frame rot src img
            = map (map (\<lambda>v. if (220 \<le> v) = invert p then black else white))
                (if truthy_int (rotate_deg p) then rot (the (rotate_deg p)) (src (clip_of p))
                 else src (clip_of p))"
    unfolding i by (simp add: two_colour_tone)
  assume "\<not> truthy_int (rotate_deg p) \<and> src (clip_of p) = [[200, 230]]"
  then show "image_frame rot src img = [if invert p then [white, black] else [black, white]]"
    unfolding f by (simp add: black_def white_def)
next
  assume "throws env = (\<lambda>a. None)"
  then show "\<exists>img s'. screenshotPageDirect env p s = (Inr img, s')"
    by (rule screenshotPageDirect_q)
qed

theorem two_colour_pipeline_witness:
  "einkColors ((basic_params ''/a'')\<lparr>einkColors := Some 2, invert := True\<rparr>) = Some 2
   \<and> screenshotPageDirect (quiet_env 200 False)
         ((basic_params ''/a'')\<lparr>einkColors := Some 2, invert := True\<rparr>) (on_page ''/a'')
       = (Inr (SharpBuffer
                 \<lparr>shot_type = ''png'', clip_x = 0, clip_y = 56, clip_width = Some 800,
                    clip_height = Some 544\<rparr>
                 [Threshold 220 True, Negate False, ToColourspace ''b-w'', Png (Some 2)]),
          (on_page ''/a'')\<lparr>performed :=
             [Screenshot \<lparr>shot_type = ''png'', clip_x = 0, clip_y = 56, clip_width = Some 800,
                           clip_height = Some 544\<rparr>,
              ToBuffer [Threshold 220 True, Negate False, ToColourspace ''b-w'', Png (Some 2)]]\<rparr>)
   \<and> image_frame quarter_turns (\<lambda>c. [[200, 230], [219, 220]])
         (SharpBuffer
            \<lparr>shot_type = ''png'', clip_x = 0, clip_y = 56, clip_width = Some 800,
               clip_height = Some 544\<rparr>
            [Threshold 220 True, Negate False, ToColourspace ''b-w'', Png (Some 2)])
       = [[white, black], [white, black]]
   \<and> einkColors ((basic_params ''/a'')\<lparr>einkColors := Some 2, format := ''bmp'',
                                          rotate_deg := Some 180\<rparr>) = Some 2
   \<and> screenshotPageDirect (quiet_env 200 False)
         ((basic_params ''/a'')\<lparr>einkColors := Some 2, format := ''bmp'', rotate_deg := Some 180\<rparr>)
         (on_page ''/a'')
       = (Inr (BmpFile 1
                 \<lparr>shot_type = ''png'', clip_x = 0, clip_y = 56, clip_width = Some 800,
                    clip_height = Some 544\<rparr>
                 [Rotate 180, Threshold 220 True, ToColourspace ''b-w'', Raw]),
          (on_page ''/a'')\<lparr>performed :=
             [Screenshot \<lparr>shot_type = ''png'', clip_x = 0, clip_y = 56, clip_width = Some 800,
                           clip_height = Some 544\<rparr>,
              ToBuffer [Rotate 180, Threshold 220 True, ToColourspace ''b-w'', Raw],
              BmpEncode 1]\<rparr>)
   \<and> image_frame quarter_turns (\<lambda>c. [[200, 230]])
         (BmpFile 1
            \<lparr>shot_type = ''png'', clip_x = 0, clip_y = 56, clip_width = Some 800,
               clip_height = Some 544\<rparr>
            [Rotate 180, Threshold 220 True, ToColourspace ''b-w'', Raw])
       = [[white, black]]"
proof -
  let ?c = "\<lparr>shot_type = ''png'', clip_x = 0, clip_y = 56, clip_width = Some 800,
              clip_height = Some 544\<rparr>"
  let ?p = "(basic_params ''/a'')\<lparr>einkColors := Some 2, invert := True\<rparr>"
  let ?q = "(basic_params ''/a'')\<lparr>einkColors := Some 2, format := ''bmp'', rotate_deg := Some 180\<rparr>"
  have p: "einkColors ?p = Some 2" "invert ?p" "\<not> truthy_int (rotate_deg ?p)" "clip_of ?p = ?c"
    by (simp_all add: basic_params_def truthy_int_def clip_of_def header_height_zoom_1)
  have q: "einkColors ?q = Some 2" "\<not> invert ?q" "truthy_int (rotate_deg ?q)"
    "the (rotate_deg ?q) = 180" "clip_of ?q = ?c"
    by (simp_all add: basic_params_def truthy_int_def clip_of_def header_height_zoom_1)
  have a: "screenshotPageDirect (quiet_env 200 False) ?p (on_page ''/a'')
       = (Inr (SharpBuffer ?c [Threshold 220 True, Negate False, ToColourspace ''b-w'', Png (Some 2)]),
          (on_page ''/a'')\<lparr>performed :=
             [Screenshot ?c,
              ToBuffer [Threshold 220 True, Negate False, ToColourspace ''b-w'', Png (Some 2)]]\<rparr>)"
    by (simp add: shot_defs io_defs quiet_env_def basic_params_def on_page_def header_height_zoom_1)
  have b: "screenshotPageDirect (quiet_env 200 False) ?q (on_page ''/a'')
       = (Inr (BmpFile 1 ?c [Rotate 180, Threshold 220 True, ToColourspace ''b-w'', Raw]),
          (on_page ''/a'')\<lparr>performed :=
             [Screenshot ?c, ToBuffer [Rotate 180, Threshold 220 True, ToColourspace ''b-w'', Raw],
              BmpEncode 1]\<rparr>)"
    by (simp add: shot_defs io_defs quiet_env_def basic_params_def on_page_def header_height_zoom_1)
  from two_colour_pipeline [where p = ?p and env = "quiet_env 200 False" and s = "on_page ''/a''"
      and rot = quarter_turns and src = "\<lambda>c. [[200, 230], [219, 220]]"] p(1) a
  have "image_frame quarter_turns (\<lambda>c. [[200, 230], [219, 220]])
          (SharpBuffer ?c [Threshold 220 True, Negate False, ToColourspace ''b-w'', Png (Some 2)])
        = map (map (\<lambda>v. if (220 \<le> v) = invert ?p then black else white))
            (if truthy_int (rotate_deg ?p) then quarter_turns (the (rotate_deg ?p)) [[200, 230], [219, 220]]
             else [[200, 230], [219, 220]])"
    by blast
  then have c: "image_frame quarter_turns (\<lambda>c. [[200, 230], [219, 220]])
          (SharpBuffer ?c [Threshold 220 True, Negate False, ToColourspace ''b-w'', Png (Some 2)])
        = [[white, black], [white, black]]"
    using p(2,3) by simp
  from two_colour_pipeline [where p = ?q and env = "quiet_env 200 False" and s = "on_page ''/a''"
      and rot = quarter_turns and src = "\<lambda>c. [[200, 230]]"] q(1) b
  have "image_frame quarter_turns (\<lambda>c. [[200, 230]])
          (BmpFile 1 ?c [Rotate 180, Threshold 220 True, ToColourspace ''b-w'', Raw])
        = map (map (\<lambda>v. if (220 \<le> v) = invert ?q then black else white))
            (if truthy_int (rotate_deg ?q) then quarter_turns (the (rotate_deg ?q)) [[200, 230]]
             else [[200, 230]])"
    by blast
  then have d: "image_frame quarter_turns (\<lambda>c. [[200, 230]])
          (BmpFile 1 ?c [Rotate 180, Threshold 220 True, ToColourspace ''b-w'', Raw])
        = [[white, black]]"
    using q(2,3) by (simp add: q(4) quarter_turns_def)
  from p(1) q(1) a b c d show ?thesis by (intro conjI)
qed

subsection \<open>A firing\<close>

lemma open_page_q:
  "throws env = (\<lambda>a. None) \<Longrightarrow> response_ok (status env url) \<Longrightarrow>
     open_page env url idle s =
       (Inr (), s\<lparr>performed := performed s @ [EvaluateOnNewDocument, Goto url idle, RemoveScript]\<rparr>)"
  by (simp add: open_page_def call_q io_bind_def call_quiet_def)

lemma load_target_q:
  "throws env = (\<lambda>a. None) \<Longrightarrow> response_ok (status env (resolveUrl env (pagePath p))) \<Longrightarrow>
     \<exists>c w0 s'. load_target env p s = (Inr (c, w0), s')"
  by (cases "nav_case_of s p") (simp_all add: load_target_def open_page_q io_bind_def io_return_def)

lemma after_load_q:
  assumes q: "throws env = (\<lambda>a. None)"
  shows "\<exists>s'. after_load env p vp c w0 s = (Inr vp, s')"
proof (cases "c = FirstLoad")
  case True
  then show ?thesis
    by (simp add: after_load_def io_bind_def io_return_def modify_def dismiss_toast_first_q [OF q]
        wait_loaded_q [OF q] update_language_q [OF q] update_theme_q [OF q] final_wait_q
        call_quiet_def)
next
  case False
  then show ?thesis
    by (simp add: after_load_def io_bind_def io_return_def modify_def dismiss_toast_q [OF q]
        wait_loaded_q [OF q] update_language_q [OF q] update_theme_q [OF q] final_wait_q
        call_quiet_def)
qed

lemma navigatePageDirect_q:
  assumes q: "throws env = (\<lambda>a. None)"
    and ok: "response_ok (status env (resolveUrl env (pagePath p)))"
  shows "\<exists>s'. navigatePageDirect env p s = (Inr (with_header p), s')"
proof -
  obtain s2 where s2: "io_bind (getPage env) (\<lambda>_. apply_viewport env (with_header p)) s = (Inr (), s2)"
    by (simp add: io_bind_def getPage_q [OF q] apply_viewport_q [OF q])
  from load_target_q [OF q ok] obtain c w0 s3 where l: "load_target env p s2 = (Inr (c, w0), s3)"
    by blast
  from after_load_q [OF q] obtain s4 where a: "after_load env p (with_header p) c w0 s3 = (Inr (with_header p), s4)"
    by blast
  have "navigatePageDirect env p s = (Inr (with_header p), s4)"
    using s2 l a
    by (simp add: navigatePageDirect_body navigate_body_def io_bind_def getPage_q [OF q]
          apply_viewport_q [OF q])
  then show ?thesis by blast
qed

lemma navigateAndScreenshot_q:
  assumes q: "throws env = (\<lambda>a. None)"
    and ok: "response_ok (status env (resolveUrl env (pagePath p)))"
  shows "\<exists>img s'. navigateAndScreenshot env p s = (Inr img, s')"
proof -
  from navigatePageDirect_q [OF q ok] obtain s1 where
    n: "navigatePageDirect env p s = (Inr (with_header p), s1)" by blast
  from screenshotPageDirect_q [OF q] obtain img s2 where
    "screenshotPageDirect env (p\<lparr>viewport := with_header p\<rparr>) s1 = (Inr img, s2)" by blast
  with n show ?thesis by (simp add: navigateAndScreenshot_def io_bind_def)
qed

lemma saveScreenshot_q:
  "mkdir_error fenv = (\<lambda>d. None) \<Longrightarrow> write_error fenv = (\<lambda>f. None) \<Longrightarrow>
     \<exists>fs'. saveScreenshot fenv base (Some n) img fmt colors fs =
       (Inr (base @ ''/'' @ n @ ''/latest.'' @ getExtension fmt colors), fs')"
  by (simp add: saveScreenshot_def ensureDirectoryExists_def Let_def)

lemma path_requestParams: "pagePath (requestParams c v) = c_path c"
  by (simp add: requestParams_def)

lemma capture_body_q:
  assumes q: "throws env = (\<lambda>a. None)"
    and ok: "response_ok (status env (resolveUrl env (c_path c)))"
    and f: "mkdir_error fenv = (\<lambda>d. None)" "write_error fenv = (\<lambda>f. None)"
    and v: "c_viewport c \<noteq> None" and n: "c_name c \<noteq> None"
  shows "\<exists>saved url w'. capture_body env fenv base c w = (Inr (Success saved url), w')"
proof -
  from v obtain vp where vp: "c_viewport c = Some vp" by auto
  from n obtain nm where nm: "c_name c = Some nm" by auto
  from ok have ok': "response_ok (status env (resolveUrl env (pagePath (requestParams c vp))))"
    by (simp add: path_requestParams)
  from navigateAndScreenshot_q [OF q ok'] obtain img b' where
    i: "navigateAndScreenshot env (requestParams c vp) (fst w) = (Inr img, b')" by blast
  from saveScreenshot_q [OF f] obtain fs' where
    "saveScreenshot fenv base (Some nm) img (format (requestParams c vp))
        (einkColors (requestParams c vp)) (snd w) =
       (Inr (base @ ''/'' @ nm @ ''/latest.''
             @ getExtension (format (requestParams c vp)) (einkColors (requestParams c vp))), fs')"
    by blast
  with vp nm i show ?thesis by (simp add: capture_body_def)
qed

text \<open>
  \<^verbatim>\<open>captureScreenshot\<close> always returns an outcome record: an error of the \<^verbatim>\<open>try\<close> block
  (navigation, capture, post-processing or saving) becomes
  \<^verbatim>\<open>{success: false, error: err.message}\<close>.  The timer callback gives the scheduler back
  unchanged, with its jobs and timers, and leaves the session and the disk as the firing
  left them.
\<close>

lemma captureScreenshot_returns_outcome:
  "(\<exists>out. fst (captureScreenshot env fenv co base sched now c w) = Inr out)
   \<and> (\<forall>err w'. \<not> isOffHours (offHours sched) now \<and> capture_body env fenv base c w = (Inl err, w') \<longrightarrow>
        captureScreenshot env fenv co base sched now c w = (Inr (Failure (err_message co err)), w'))
   \<and> fst (snd (interval_tick env fenv co base now c (sched, w))) = sched
   \<and> (\<not> isShuttingDown sched \<longrightarrow>
        fst (interval_tick env fenv co base now c (sched, w))
          = Some (fst (captureScreenshot env fenv co base sched now c w))
        \<and> snd (snd (interval_tick env fenv co base now c (sched, w)))
          = snd (captureScreenshot env fenv co base sched now c w))"
proof (intro conjI allI impI)
  show "\<exists>out. fst (captureScreenshot env fenv co base sched now c w) = Inr out"
    by (auto simp: captureScreenshot_def split: prod.splits sum.splits)
next
  fix err w'
  assume "\<not> isOffHours (offHours sched) now \<and> capture_body env fenv base c w = (Inl err, w')"
  then show "captureScreenshot env fenv co base sched now c w = (Inr (Failure (err_message co err)), w')"
    by (simp add: captureScreenshot_def)
next
  show "fst (snd (interval_tick env fenv co base now c (sched, w))) = sched"
    by (simp add: interval_tick_def split: prod.splits)
next
  assume "\<not> isShuttingDown sched"
  then show "fst (interval_tick env fenv co base now c (sched, w))
          = Some (fst (captureScreenshot env fenv co base sched now c w))"
    by (simp add: interval_tick_def split: prod.splits)
next
  assume "\<not> isShuttingDown sched"
  then show "snd (snd (interval_tick env fenv co base now c (sched, w)))
          = snd (captureScreenshot env fenv co base sched now c w)"
    by (simp add: interval_tick_def split: prod.splits)
qed

lemmas capture_defs = capture_body_def requestParams_def navigateAndScreenshot_def js_parseInt_def
  truthy_num_def saveScreenshot_def ensureDirectoryExists_def getExtension_def getLocalUrl_def

lemmas firing_defs = fire_def captureScreenshot_def capture_defs nav_defs shot_defs io_defs
  quiet_env_def quiet_fs_def loaded_job_def basic_job_def new_browser_def ha_url_def
  header_height_zoom_1 new_scheduler_def isOffHours_def empty_store_def err_message_def

text \<open>
  Claim C5 at a failing input.  Job \<^verbatim>\<open>y\<close> shows \<^verbatim>\<open>/a\<close> and job \<^verbatim>\<open>x\<close> shows \<^verbatim>\<open>/b\<close>; from a
  fresh session \<^verbatim>\<open>y\<close>, \<^verbatim>\<open>x\<close> and \<^verbatim>\<open>y\<close> fire in turn, and \<^verbatim>\<open>page.goto\<close> for \<^verbatim>\<open>/b\<close> is
  answered with status 404.  The error is caught: the firing of \<^verbatim>\<open>x\<close> returns
  \<^verbatim>\<open>{success: false, error}\<close>.  But it leaves \<^verbatim>\<open>/a\<close> as the cached path of a page that
  holds the answer for \<^verbatim>\<open>/b\<close>, so the next firing of \<^verbatim>\<open>y\<close> loads nothing, captures that
  document, writes it to the file of \<^verbatim>\<open>y\<close> and reports success.  Had \<^verbatim>\<open>/b\<close> been
  answered with status 200, or had \<^verbatim>\<open>x\<close> not fired, that capture would show \<^verbatim>\<open>/a\<close>.
\<close>

theorem failed_firing_reaches_next_job:
  "run_firings [(200, loaded_job ''y'' ''/a'' 800 600 60), (404, loaded_job ''x'' ''/b'' 800 600 60),
                (200, loaded_job ''y'' ''/a'' 800 600 60)] (new_browser, empty_store) =
     ([Inr (Success ''/out/y/latest.png'' ''/local/screenshots/y/latest.png''),
       Inr (Failure ''cannot open''),
       Inr (Success ''/out/y/latest.png'' ''/local/screenshots/y/latest.png'')],
      \<lparr>has_page = True, page_viewport = Some \<lparr>width = Some 800, height = Some 656\<rparr>,
         lastRequestedPath = Some ''/a'', lastRequestedLang = None, lastRequestedTheme = None,
         lastRequestedDarkMode = Some False,
         performed =
           [Launch, SetViewport (Some 800) (Some 656), EvaluateOnNewDocument,
            Goto ''http://ha:8123/a'' False, RemoveScript, SetZoom 1, WaitForLoaded,
            SetTheme [] False, Delay 1500, Screenshot basic_capture, ToBuffer [Png None],
            EvaluateOnNewDocument, Goto ''http://ha:8123/b'' True,
            DismissToast 1, SetZoom 1, WaitForLoaded, Screenshot basic_capture,
            ToBuffer [Png None]]\<rparr>,
      \<lparr>dirs = [''/out/y''],
         files = [''/out/y/latest.png'' \<mapsto> SharpBuffer basic_capture [Png None]]\<rparr>)
   \<and> lastRequestedPath (fst (snd (run_firings
         [(200, loaded_job ''y'' ''/a'' 800 600 60), (404, loaded_job ''x'' ''/b'' 800 600 60)]
         (new_browser, empty_store)))) = Some ''/a''
   \<and> captured_from None (performed (fst (snd (run_firings
         [(200, loaded_job ''y'' ''/a'' 800 600 60), (404, loaded_job ''x'' ''/b'' 800 600 60),
          (200, loaded_job ''y'' ''/a'' 800 600 60)] (new_browser, empty_store)))))
       = [Some ''http://ha:8123/a'', Some ''http://ha:8123/b'']
   \<and> captured_from None (performed (fst (snd (run_firings
         [(200, loaded_job ''y'' ''/a'' 800 600 60), (200, loaded_job ''x'' ''/b'' 800 600 60),
          (200, loaded_job ''y'' ''/a'' 800 600 60)] (new_browser, empty_store)))))
       = [Some ''http://ha:8123/a'', Some ''http://ha:8123/b'', Some ''http://ha:8123/a'']
   \<and> captured_from None (performed (fst (snd (run_firings
         [(200, loaded_job ''y'' ''/a'' 800 600 60), (200, loaded_job ''y'' ''/a'' 800 600 60)]
         (new_browser, empty_store)))))
       = [Some ''http://ha:8123/a'', Some ''http://ha:8123/a'']"
proof (intro conjI)
  show "run_firings [(200, loaded_job ''y'' ''/a'' 800 600 60), (404, loaded_job ''x'' ''/b'' 800 600 60),
                (200, loaded_job ''y'' ''/a'' 800 600 60)] (new_browser, empty_store) =
     ([Inr (Success ''/out/y/latest.png'' ''/local/screenshots/y/latest.png''),
       Inr (Failure ''cannot open''),
       Inr (Success ''/out/y/latest.png'' ''/local/screenshots/y/latest.png'')],
      \<lparr>has_page = True, page_viewport = Some \<lparr>width = Some 800, height = Some 656\<rparr>,
         lastRequestedPath = Some ''/a'', lastRequestedLang = None, lastRequestedTheme = None,
         lastRequestedDarkMode = Some False,
         performed =
           [Launch, SetViewport (Some 800) (Some 656), EvaluateOnNewDocument,
            Goto ''http://ha:8123/a'' False, RemoveScript, SetZoom 1, WaitForLoaded,
            SetTheme [] False, Delay 1500, Screenshot basic_capture, ToBuffer [Png None],
            EvaluateOnNewDocument, Goto ''http://ha:8123/b'' True,
            DismissToast 1, SetZoom 1, WaitForLoaded, Screenshot basic_capture,
            ToBuffer [Png None]]\<rparr>,
      \<lparr>dirs = [''/out/y''],
         files = [''/out/y/latest.png'' \<mapsto> SharpBuffer basic_capture [Png None]]\<rparr>)"
    by (simp add: firing_defs basic_capture_def)
next
  show "lastRequestedPath (fst (snd (run_firings
         [(200, loaded_job ''y'' ''/a'' 800 600 60), (404, loaded_job ''x'' ''/b'' 800 600 60)]
         (new_browser, empty_store)))) = Some ''/a''"
    by (simp add: firing_defs)
next
  show "captured_from None (performed (fst (snd (run_firings
         [(200, loaded_job ''y'' ''/a'' 800 600 60), (404, loaded_job ''x'' ''/b'' 800 600 60),
          (200, loaded_job ''y'' ''/a'' 800 600 60)] (new_browser, empty_store)))))
       = [Some ''http://ha:8123/a'', Some ''http://ha:8123/b'']"
    by (simp add: firing_defs)
next
  show "captured_from None (performed (fst (snd (run_firings
         [(200, loaded_job ''y'' ''/a'' 800 600 60), (200, loaded_job ''x'' ''/b'' 800 600 60),
          (200, loaded_job ''y'' ''/a'' 800 600 60)] (new_browser, empty_store)))))
       = [Some ''http://ha:8123/a'', Some ''http://ha:8123/b'', Some ''http://ha:8123/a'']"
    by (simp add: firing_defs)
next
  show "captured_from None (performed (fst (snd (run_firings
         [(200, loaded_job ''y'' ''/a'' 800 600 60), (200, loaded_job ''y'' ''/a'' 800 600 60)]
         (new_browser, empty_store)))))
       = [Some ''http://ha:8123/a'', Some ''http://ha:8123/a'']"
    by (simp add: firing_defs)
qed

section \<open>Properties of the configuration\<close>

lemma validate_screenshot_ok:
  "(\<exists>c'. validate_screenshot i c = Inr c') = job_complete c"
  by (auto simp: validate_screenshot_def job_complete_def truthy_num_def split: option.splits)

lemma validate_each_ok:
  "(\<exists>cs'. validate_each i cs = Inr cs') = list_all job_complete cs"
proof (induction cs arbitrary: i)
  case Nil
  show ?case by simp
next
  case (Cons c cs)
  show ?case
  proof (cases "validate_screenshot i c")
    case (Inl e)
    with validate_screenshot_ok [of i c] show ?thesis by auto
  next
    case (Inr c')
    with validate_screenshot_ok [of i c] have "job_complete c" by auto
    with Inr Cons.IH [of "Suc i"] show ?thesis
      by (cases "validate_each (Suc i) cs") auto
  qed
qed

lemma validate_off_hours_ok:
  "(\<exists>w. validate_off_hours oh = Inr w) = window_valid oh"
  by (auto simp: validate_off_hours_def window_valid_def truthy_str_def split: option.splits)

lemma loadConfig_ok:
  "(\<not> isl (fst (loadConfig s cfg))) =
     ((case screenshots cfg of None \<Rightarrow> False | Some shots \<Rightarrow> list_all job_complete shots)
      \<and> window_valid (off_hours cfg))"
proof (cases "screenshots cfg")
  case None
  then show ?thesis by (simp add: loadConfig_def)
next
  case (Some shots)
  show ?thesis
  proof (cases "validate_off_hours (off_hours cfg)")
    case (Inl e)
    with validate_off_hours_ok [of "off_hours cfg"] have "\<not> window_valid (off_hours cfg)" by auto
    with Some Inl show ?thesis by (simp add: loadConfig_def)
  next
    case (Inr w)
    with validate_off_hours_ok [of "off_hours cfg"] have v: "window_valid (off_hours cfg)" by auto
    show ?thesis
    proof (cases "validate_each 0 shots")
      case (Inl e)
      with validate_each_ok [of 0 shots] have "\<not> list_all job_complete shots" by auto
      with Some Inr Inl show ?thesis by (simp add: loadConfig_def Let_def)
    next
      case r: (Inr shots')
      with validate_each_ok [of 0 shots] have "list_all job_complete shots" by auto
      with Some Inr r v show ?thesis by (simp add: loadConfig_def Let_def)
    qed
  qed
qed

lemma loadConfig_frame:
  "timers (snd (loadConfig s cfg)) = timers s \<and> jobs (snd (loadConfig s cfg)) = jobs s
   \<and> started (snd (loadConfig s cfg)) = started s"
  by (auto simp: loadConfig_def Let_def split: option.splits sum.splits)

lemma start_failure:
  assumes "fst (loadConfig s cfg) = Inl e"
  shows "fst (start s cfg) = Inl e \<and> timers (snd (start s cfg)) = timers s
     \<and> jobs (snd (start s cfg)) = jobs s \<and> started (snd (start s cfg)) = started s"
proof -
  obtain r s' where l: "loadConfig s cfg = (r, s')" by (cases "loadConfig s cfg")
  with assms have r: "r = Inl e" by simp
  from loadConfig_frame [of s cfg] l have "timers s' = timers s \<and> jobs s' = jobs s \<and> started s' = started s"
    by simp
  with l r show ?thesis by (simp add: start_def)
qed

text \<open>
  Claim C2, as amended.  \<^verbatim>\<open>loadConfig\<close> succeeds exactly when \<^verbatim>\<open>screenshots\<close> is an array
  whose entries each have a name, a path, a viewport (an object with non-zero width and
  height, or non-zero flat width and height) and an interval of at least 1, and the
  off-hours window is absent or has a start and an end in \<^verbatim>\<open>HH:MM\<close> form.  When it fails,
  \<^verbatim>\<open>start\<close> fails with the same error and has armed no timer, registered no job and
  started no capture.  A duplicated name is not an error: \<^verbatim>\<open>scheduleJob\<close> skips the later
  entry with a warning.  No bound on width, height, wait or zoom is checked.
\<close>

theorem loadConfig_checks_presence_only:
  "(\<not> isl (fst (loadConfig s cfg))) =
     ((case screenshots cfg of None \<Rightarrow> False | Some shots \<Rightarrow> list_all job_complete shots)
      \<and> window_valid (off_hours cfg))
   \<and> (\<forall>e. fst (loadConfig s cfg) = Inl e \<longrightarrow>
        fst (start s cfg) = Inl e \<and> timers (snd (start s cfg)) = timers s
        \<and> jobs (snd (start s cfg)) = jobs s \<and> started (snd (start s cfg)) = started s)
   \<and> (\<forall>c n d. c_name c = Some n \<and> jobs s n \<noteq> None \<longrightarrow>
        scheduleJob c d s = s\<lparr>warnings := warnings s @ [n]\<rparr>)"
  using loadConfig_ok [of s cfg] start_failure [of s cfg]
  by (auto simp: scheduleJob_def Let_def)

lemmas config_defs = loadConfig_def validate_off_hours_def validate_screenshot_def basic_job_def
  truthy_str_def truthy_num_def Let_def new_scheduler_def

theorem loadConfig_checks_presence_only_witness:
  "fst (loadConfig new_scheduler
         \<lparr>screenshots = Some [basic_job ''a'' ''/x'' 800 600 60, basic_job ''b'' ''/y'' 800 600 (1 / 2)],
          off_hours = None\<rparr>) = Inl (InvalidInterval ''b'')
   \<and> \<not> job_complete (basic_job ''b'' ''/y'' 800 600 (1 / 2))
   \<and> fst (start new_scheduler
         \<lparr>screenshots = Some [basic_job ''a'' ''/x'' 800 600 60, basic_job ''b'' ''/y'' 800 600 (1 / 2)],
          off_hours = None\<rparr>) = Inl (InvalidInterval ''b'')
   \<and> timers (snd (start new_scheduler
         \<lparr>screenshots = Some [basic_job ''a'' ''/x'' 800 600 60, basic_job ''b'' ''/y'' 800 600 (1 / 2)],
          off_hours = None\<rparr>)) = []
   \<and> job_complete (basic_job ''a'' ''/x'' 800 600 60)
   \<and> \<not> isl (fst (loadConfig new_scheduler
         \<lparr>screenshots = Some [basic_job ''a'' ''/x'' 800 600 60], off_hours = None\<rparr>))"
proof -
  have l: "fst (loadConfig new_scheduler
         \<lparr>screenshots = Some [basic_job ''a'' ''/x'' 800 600 60, basic_job ''b'' ''/y'' 800 600 (1 / 2)],
          off_hours = None\<rparr>) = Inl (InvalidInterval ''b'')"
    by (simp add: config_defs)
  have j: "job_complete (basic_job ''a'' ''/x'' 800 600 60)"
    "\<not> job_complete (basic_job ''b'' ''/y'' 800 600 (1 / 2))"
    by (simp_all add: job_complete_def basic_job_def truthy_str_def truthy_num_def)
  have t: "timers new_scheduler = []" by (simp add: new_scheduler_def)
  from loadConfig_checks_presence_only [of new_scheduler
      "\<lparr>screenshots = Some [basic_job ''a'' ''/x'' 800 600 60, basic_job ''b'' ''/y'' 800 600 (1 / 2)],
          off_hours = None\<rparr>"] l
  have a: "fst (start new_scheduler
         \<lparr>screenshots = Some [basic_job ''a'' ''/x'' 800 600 60, basic_job ''b'' ''/y'' 800 600 (1 / 2)],
          off_hours = None\<rparr>) = Inl (InvalidInterval ''b'')
     \<and> timers (snd (start new_scheduler
         \<lparr>screenshots = Some [basic_job ''a'' ''/x'' 800 600 60, basic_job ''b'' ''/y'' 800 600 (1 / 2)],
          off_hours = None\<rparr>)) = timers new_scheduler"
    by blast
  from loadConfig_checks_presence_only [of new_scheduler
      "\<lparr>screenshots = Some [basic_job ''a'' ''/x'' 800 600 60], off_hours = None\<rparr>"] j(1)
  have b: "\<not> isl (fst (loadConfig new_scheduler
         \<lparr>screenshots = Some [basic_job ''a'' ''/x'' 800 600 60], off_hours = None\<rparr>))"
    by (simp add: window_valid_def)
  from l j a b t show ?thesis by simp
qed

text \<open>
  The claim as stated fails: a list with the name \<^verbatim>\<open>a\<close> twice is loaded and started (one
  timer is armed), and so is a job of width 50, height 99999, wait 99999 and zoom 9.
\<close>

theorem loadConfig_checks_presence_only_counterexample:
  "\<not> distinct (map c_name [basic_job ''a'' ''/x'' 800 600 60, basic_job ''a'' ''/y'' 800 600 60])
   \<and> \<not> isl (fst (loadConfig new_scheduler
         \<lparr>screenshots = Some [basic_job ''a'' ''/x'' 800 600 60, basic_job ''a'' ''/y'' 800 600 60],
          off_hours = None\<rparr>))
   \<and> fst (start new_scheduler
         \<lparr>screenshots = Some [basic_job ''a'' ''/x'' 800 600 60, basic_job ''a'' ''/y'' 800 600 60],
          off_hours = None\<rparr>) = Inr ()
   \<and> map t_kind (timers (snd (start new_scheduler
         \<lparr>screenshots = Some [basic_job ''a'' ''/x'' 800 600 60, basic_job ''a'' ''/y'' 800 600 60],
          off_hours = None\<rparr>))) = [Interval]
   \<and> \<not> within_documented_bounds (basic_job ''b'' ''/x'' 50 99999 60)
   \<and> c_wait ((basic_job ''b'' ''/x'' 50 99999 60)\<lparr>c_wait := Some 99999, c_zoom := Some 9\<rparr>) = Some 99999
   \<and> c_zoom ((basic_job ''b'' ''/x'' 50 99999 60)\<lparr>c_wait := Some 99999, c_zoom := Some 9\<rparr>) = Some 9
   \<and> \<not> isl (fst (loadConfig new_scheduler
         \<lparr>screenshots = Some [(basic_job ''b'' ''/x'' 50 99999 60)\<lparr>c_wait := Some 99999, c_zoom := Some 9\<rparr>],
          off_hours = None\<rparr>))
   \<and> map t_kind (timers (snd (start new_scheduler
         \<lparr>screenshots = Some [(basic_job ''b'' ''/x'' 50 99999 60)\<lparr>c_wait := Some 99999, c_zoom := Some 9\<rparr>],
          off_hours = None\<rparr>))) = [Interval]"
  by (simp add: config_defs start_def scheduleJob_def arm_def within_documented_bounds_def)

section \<open>Properties of the bitmap encoder\<close>

subsection \<open>Blocks of a list\<close>

lemma slices_concat: "concat (map (\<lambda>j. take n (drop (j * n) xs)) [0..<k]) = take (k * n) xs"
proof (induction k)
  case 0
  show ?case by simp
next
  case (Suc k)
  have "take (k * n + n) xs = take (k * n) xs @ take n (drop (k * n) xs)"
    by (rule take_add)
  with Suc show ?case by (simp add: add.commute)
qed

lemma block_of_concat:
  assumes "\<And>x. x \<in> set xs \<Longrightarrow> length (f x) = n" "i < length xs"
  shows "take n (drop (i * n) (concat (map f xs) @ rest)) = f (xs ! i)"
  using assms
proof (induction xs arbitrary: i)
  case Nil
  then show ?case by simp
next
  case (Cons a xs)
  have la: "length (f a) = n" using Cons.prems(1) by simp
  show ?case
  proof (cases i)
    case 0
    with la show ?thesis by simp
  next
    case (Suc j)
    have "drop (Suc j * n) (concat (map f (a # xs)) @ rest) = drop (j * n) (concat (map f xs) @ rest)"
      using la by simp
    moreover have "take n (drop (j * n) (concat (map f xs) @ rest)) = f (xs ! j)"
      using Cons.prems Suc by (intro Cons.IH) auto
    ultimately show ?thesis using Suc by simp
  qed
qed

lemma length_concat_blocks:
  "(\<And>x. x \<in> set xs \<Longrightarrow> length (f x) = n) \<Longrightarrow> length (concat (map f xs)) = length xs * n"
  by (induction xs) simp_all

lemma map_rev_upt: "map (\<lambda>y. g (h - 1 - y)) (rev [0..<h]) = map g [0..<h]"
  by (rule nth_equalityI) (simp_all add: rev_nth)

subsection \<open>Bit fields\<close>

lemma length_bits_of: "length (bits_of d v) = d"
  by (induction d arbitrary: v) simp_all

lemma val_of_snoc: "val_of (bs @ [b]) = 2 * val_of bs + (if b then 1 else 0)"
  by (simp add: val_of_def)

lemma val_of_bits_of: "val_of (bits_of d v) = v mod 2 ^ d"
proof (induction d arbitrary: v)
  case 0
  show ?case by (simp add: val_of_def)
next
  case (Suc d)
  have "v mod (2 * 2 ^ d) = 2 * (v div 2 mod 2 ^ d) + v mod 2"
    by (rule mod_mult2_eq)
  moreover have "(if odd v then 1 else 0) = v mod 2"
    by (cases "odd v") (simp_all add: odd_iff_mod_2_eq_one)
  ultimately show ?case by (simp add: val_of_snoc Suc)
qed

lemma bits_of_val_of: "length bs = d \<Longrightarrow> bits_of d (val_of bs) = bs"
proof (induction bs arbitrary: d rule: rev_induct)
  case Nil
  then show ?case by simp
next
  case (snoc b bs)
  then obtain d' where d: "d = Suc d'" "length bs = d'" by (cases d) auto
  with snoc.IH [of d'] show ?case by (simp add: val_of_snoc)
qed

lemma val_of_less: "val_of bs < 2 ^ length bs"
proof -
  have "val_of bs = val_of (bits_of (length bs) (val_of bs))"
    by (simp add: bits_of_val_of)
  also have "\<dots> = val_of bs mod 2 ^ length bs"
    by (rule val_of_bits_of)
  finally have "val_of bs = val_of bs mod 2 ^ length bs" .
  moreover have "val_of bs mod 2 ^ length bs < 2 ^ length bs" by simp
  ultimately show ?thesis by simp
qed

subsection \<open>Header fields\<close>

lemma from_le_le32:
  assumes "n < 4294967296"
  shows "from_le (le32 n) = n"
proof -
  have a: "n div 65536 = n div 256 div 256" "n div 16777216 = n div 256 div 256 div 256"
    by (simp_all add: div_mult2_eq [symmetric])
  have b: "n div 256 div 256 div 256 < 256"
    using assms by (simp add: div_mult2_eq [symmetric])
  have c: "256 * (x div 256) + x mod 256 = x" for x :: nat
    by (rule mult_div_mod_eq)
  from c [of n] c [of "n div 256"] c [of "n div 256 div 256"] b show ?thesis
    unfolding from_le_def le32_def a by simp
qed

lemma from_le_le16:
  assumes "n < 65536"
  shows "from_le (le16 n) = n"
proof -
  have b: "n div 256 < 256" using assms by simp
  from mult_div_mod_eq [of 256 n] b show ?thesis
    unfolding from_le_def le16_def by simp
qed

lemma length_le [simp]: "length (le32 n) = 4" "length (le16 n) = 2"
  by (simp_all add: le32_def le16_def)

lemma length_file_header: "length (file_header w h d) = 14"
  by (simp add: file_header_def)

lemma length_info_header: "length (info_header w h d) = 40"
  by (simp add: info_header_def)

lemma length_color_table: "length (color_table d) = (if d \<le> 8 then 4 * 2 ^ d else 0)"
  by (simp add: color_table_def length_concat_blocks [where n = 4])

subsection \<open>Rows\<close>

lemma row_size_fits: "w * d \<le> row_size w d * 8"
  unfolding row_size_def by presburger

lemma row_size_24_fits: "w * 3 \<le> row_size w 24"
  unfolding row_size_def by presburger

lemma index_of_less: "d \<le> 8 \<Longrightarrow> v < 256 \<Longrightarrow> index_of d v < 2 ^ d"
proof -
  assume d: "d \<le> 8" and v: "v < 256"
  have "(256::nat) = 2 ^ (8 - d) * 2 ^ d"
    using d by (simp add: power_add [symmetric])
  with v have "v < 2 ^ (8 - d) * 2 ^ d" by simp
  then have "v div 2 ^ (8 - d) < 2 ^ d"
    by (simp add: less_mult_imp_div_less mult.commute)
  then show ?thesis by (simp add: index_of_def)
qed

lemma color_table_nth:
  assumes "d \<le> 8" "i < 2 ^ d"
  shows "color_table d ! (i * 4) = grey_level d i"
proof -
  let ?f = "\<lambda>i. [grey_level d i, grey_level d i, grey_level d i, 0]"
  have "take 4 (drop (i * 4) (concat (map ?f [0..<2 ^ d]) @ [])) = ?f ([0..<2 ^ d] ! i)"
    using assms(2) by (intro block_of_concat) simp_all
  then have t: "take 4 (drop (i * 4) (color_table d)) = ?f i"
    using assms by (simp add: color_table_def)
  have "i * 4 < length (color_table d)"
    using assms by (simp add: length_color_table)
  then have "color_table d ! (i * 4) = hd (drop (i * 4) (color_table d))"
    by (simp add: hd_drop_conv_nth)
  also have "\<dots> = hd (take 4 (drop (i * 4) (color_table d)))"
    by simp
  finally show ?thesis by (simp add: t)
qed

lemma packed_bits:
  assumes "length bits = n * 8"
  shows "concat (map (bits_of 8) (map (\<lambda>j. val_of (take 8 (drop (j * 8) bits))) [0..<n])) = bits"
proof -
  have "bits_of 8 (val_of (take 8 (drop (j * 8) bits))) = take 8 (drop (j * 8) bits)"
    if "j < n" for j
  proof -
    from that have "j * 8 + 8 \<le> n * 8" by simp
    with assms have "length (take 8 (drop (j * 8) bits)) = 8" by simp
    then show ?thesis by (rule bits_of_val_of)
  qed
  then have m: "map (\<lambda>j. bits_of 8 (val_of (take 8 (drop (j * 8) bits)))) [0..<n]
      = map (\<lambda>j. take 8 (drop (j * 8) bits)) [0..<n]"
    by (intro map_cong [OF refl]) simp
  have "concat (map (bits_of 8) (map (\<lambda>j. val_of (take 8 (drop (j * 8) bits))) [0..<n]))
      = concat (map (\<lambda>j. bits_of 8 (val_of (take 8 (drop (j * 8) bits)))) [0..<n])"
    by (simp add: comp_def)
  also have "\<dots> = concat (map (\<lambda>j. take 8 (drop (j * 8) bits)) [0..<n])"
    by (rule arg_cong [where f = concat]) (rule m)
  also have "\<dots> = take (n * 8) bits" by (rule slices_concat)
  finally show ?thesis using assms by simp
qed

lemma decode_encode_row_indexed:
  assumes d: "d \<le> 8" "d \<noteq> 24" and len: "length row = w"
    and ok: "\<And>v. v \<in> set row \<Longrightarrow> v < 256"
  shows "decode_row d w (color_table d) (encode_row d w row)
           = map (\<lambda>v. grey_level d (index_of d v)) row"
proof -
  let ?f = "\<lambda>v. bits_of d (index_of d v)"
  let ?B = "concat (map ?f row) @ replicate (row_size w d * 8 - w * d) False"
  have lc: "length (concat (map ?f row)) = w * d"
    using len by (simp add: length_concat_blocks [where n = d] length_bits_of)
  have lB: "length ?B = row_size w d * 8"
    using row_size_fits [of w d] by (simp add: lc)
  have e: "encode_row d w row = map (\<lambda>j. val_of (take 8 (drop (j * 8) ?B))) [0..<row_size w d]"
    using d by (simp add: encode_row_def Let_def)
  have p: "concat (map (bits_of 8) (encode_row d w row)) = ?B"
    unfolding e using lB by (rule packed_bits)
  have s: "color_table d ! (val_of (take d (drop (x * d) ?B)) * 4)
             = grey_level d (index_of d (row ! x))" if "x < w" for x
  proof -
    have "take d (drop (x * d) ?B) = ?f (row ! x)"
      using that len by (intro block_of_concat) (simp_all add: length_bits_of)
    then have "val_of (take d (drop (x * d) ?B)) = index_of d (row ! x) mod 2 ^ d"
      by (simp add: val_of_bits_of)
    moreover have v: "row ! x < 256"
      using that len by (intro ok) simp
    moreover from v have i: "index_of d (row ! x) < 2 ^ d"
      using d(1) by (intro index_of_less) simp_all
    ultimately have "val_of (take d (drop (x * d) ?B)) = index_of d (row ! x)" by simp
    with color_table_nth [OF d(1) i] show ?thesis by simp
  qed
  have "decode_row d w (color_table d) (encode_row d w row)
      = map (\<lambda>x. color_table d ! (val_of (take d (drop (x * d) ?B)) * 4)) [0..<w]"
    using d by (simp add: decode_row_def Let_def p)
  also have "\<dots> = map (\<lambda>x. grey_level d (index_of d (row ! x))) [0..<w]"
    using s by (intro map_cong [OF refl]) simp
  also have "\<dots> = map (\<lambda>v. grey_level d (index_of d v)) (map (\<lambda>x. row ! x) [0..<length row])"
    by (simp add: len comp_def)
  also have "\<dots> = map (\<lambda>v. grey_level d (index_of d v)) row"
    by (simp only: map_nth)
  finally show ?thesis .
qed

lemma decode_encode_row_24:
  assumes len: "length row = w * 3"
  shows "decode_row 24 w table (encode_row 24 w row) = row"
proof -
  let ?f = "\<lambda>x. rev (take 3 (drop (x * 3) row))"
  let ?E = "concat (map ?f [0..<w]) @ replicate (row_size w 24 - w * 3) 0"
  have l3: "length (?f x) = 3" if "x < w" for x
  proof -
    from that have "x * 3 + 3 \<le> w * 3" by simp
    with len show ?thesis by simp
  qed
  have b: "rev (take 3 (drop (x * 3) ?E)) = take 3 (drop (x * 3) row)" if "x < w" for x
  proof -
    have "take 3 (drop (x * 3) ?E) = ?f ([0..<w] ! x)"
      using that l3 by (intro block_of_concat) simp_all
    with that show ?thesis by simp
  qed
  have "decode_row 24 w table (encode_row 24 w row)
      = concat (map (\<lambda>x. rev (take 3 (drop (x * 3) ?E))) [0..<w])"
    by (simp add: decode_row_def encode_row_def)
  also have "\<dots> = concat (map (\<lambda>x. take 3 (drop (x * 3) row)) [0..<w])"
    using b by (intro arg_cong [where f = concat] map_cong [OF refl]) simp
  also have "\<dots> = take (w * 3) row" by (rule slices_concat)
  finally show ?thesis using len by simp
qed

lemma length_encode_row:
  assumes "length row = samples_per_row w d"
  shows "length (encode_row d w row) = row_size w d"
proof (cases "d = 24")
  case False
  then show ?thesis by (simp add: encode_row_def Let_def)
next
  case True
  let ?f = "\<lambda>x. rev (take 3 (drop (x * 3) row))"
  have l3: "length (?f x) = 3" if "x \<in> set [0..<w]" for x
  proof -
    from that have "x * 3 + 3 \<le> w * 3" by simp
    with assms True show ?thesis by (simp add: samples_per_row_def)
  qed
  have "length (concat (map ?f [0..<w])) = length [0..<w] * 3"
    using l3 by (rule length_concat_blocks)
  with True row_size_24_fits [of w] show ?thesis
    by (simp add: encode_row_def)
qed

subsection \<open>The file\<close>

lemma slice_length:
  assumes "length buf = h * k" "y < h"
  shows "length (take k (drop (y * k) buf)) = k"
proof -
  from assms(2) have "Suc y * k \<le> h * k" by (intro mult_le_mono1) simp
  with assms(1) show ?thesis by simp
qed

lemma stored_grey_fun:
  "stored_grey d = (if d = 24 then (\<lambda>v. v) else (\<lambda>v. grey_level d (index_of d v)))"
  by (rule ext) (simp add: stored_grey_def)

lemma decode_encode_row:
  assumes d: "d = 1 \<or> d = 2 \<or> d = 4 \<or> d = 8 \<or> d = 24"
    and len: "length row = samples_per_row w d"
    and ok: "\<And>v. v \<in> set row \<Longrightarrow> v < 256"
  shows "decode_row d w (color_table d) (encode_row d w row) = map (stored_grey d) row"
proof (cases "d = 24")
  case True
  with len have "length row = w * 3" by (simp add: samples_per_row_def)
  then have "decode_row 24 w (color_table 24) (encode_row 24 w row) = row"
    by (rule decode_encode_row_24)
  with True show ?thesis by (simp add: stored_grey_fun)
next
  case False
  with d have "d \<le> 8" by auto
  moreover from False len have "length row = w" by (simp add: samples_per_row_def)
  ultimately have "decode_row d w (color_table d) (encode_row d w row)
           = map (\<lambda>v. grey_level d (index_of d v)) row"
    using False ok by (intro decode_encode_row_indexed) auto
  with False show ?thesis by (simp add: stored_grey_fun)
qed

lemma decode_rows:
  assumes d: "d = 1 \<or> d = 2 \<or> d = 4 \<or> d = 8 \<or> d = 24"
    and v: "valid_buffer w h d buf"
  shows "concat (map (\<lambda>y. decode_row d w (color_table d)
                         (take (row_size w d) (drop (y * row_size w d) (pixel_rows w h d buf))))
                 (rev [0..<h])) = map (stored_grey d) buf"
    and "length (pixel_rows w h d buf) = h * row_size w d"
proof -
  let ?k = "samples_per_row w d"
  let ?slice = "\<lambda>y. take ?k (drop (y * ?k) buf)"
  let ?g = "\<lambda>y. encode_row d w (?slice y)"
  from v have len: "length buf = h * ?k" and bytes: "\<And>x. x \<in> set buf \<Longrightarrow> x < 256"
    by (simp_all add: valid_buffer_def list_all_iff)
  have sl: "length (?slice y) = ?k" if "y < h" for y
    using len that by (rule slice_length)
  have lg: "length (?g y) = row_size w d" if "y \<in> set (rev [0..<h])" for y
    using that by (intro length_encode_row sl) simp
  have px: "pixel_rows w h d buf = concat (map ?g (rev [0..<h]))"
    by (simp add: pixel_rows_def)
  have "length (concat (map ?g (rev [0..<h]))) = length (rev [0..<h]) * row_size w d"
    using lg by (rule length_concat_blocks)
  then show "length (pixel_rows w h d buf) = h * row_size w d"
    unfolding px by simp
  have blk: "take (row_size w d) (drop (y * row_size w d) (pixel_rows w h d buf)) = ?g (h - 1 - y)"
    if "y < h" for y
  proof -
    have "take (row_size w d) (drop (y * row_size w d) (concat (map ?g (rev [0..<h])) @ []))
        = ?g (rev [0..<h] ! y)"
      using lg that by (intro block_of_concat) simp_all
    moreover have "rev [0..<h] ! y = h - 1 - y"
      using that by (simp add: rev_nth)
    ultimately show ?thesis by (simp add: px)
  qed
  have dec: "decode_row d w (color_table d)
               (take (row_size w d) (drop (y * row_size w d) (pixel_rows w h d buf)))
             = map (stored_grey d) (?slice (h - 1 - y))" if "y < h" for y
  proof -
    from that have i: "h - 1 - y < h" by simp
    have "x < 256" if "x \<in> set (?slice (h - 1 - y))" for x
      using that bytes by (meson in_set_dropD in_set_takeD)
    with sl [OF i] show ?thesis
      unfolding blk [OF that] by (intro decode_encode_row d) simp_all
  qed
  have "map (\<lambda>y. decode_row d w (color_table d)
                         (take (row_size w d) (drop (y * row_size w d) (pixel_rows w h d buf))))
                 (rev [0..<h])
      = map (\<lambda>y. map (stored_grey d) (?slice (h - 1 - y))) (rev [0..<h])"
    using dec by (intro map_cong [OF refl]) simp
  also have "\<dots> = map (\<lambda>y. map (stored_grey d) (?slice y)) [0..<h]"
    by (rule map_rev_upt)
  finally have "concat (map (\<lambda>y. decode_row d w (color_table d)
                         (take (row_size w d) (drop (y * row_size w d) (pixel_rows w h d buf))))
                 (rev [0..<h]))
      = concat (map (map (stored_grey d)) (map ?slice [0..<h]))"
    by (simp add: comp_def)
  also have "\<dots> = map (stored_grey d) (concat (map ?slice [0..<h]))"
    by (simp add: map_concat)
  also have "concat (map ?slice [0..<h]) = take (h * ?k) buf"
    by (rule slices_concat)
  finally show "concat (map (\<lambda>y. decode_row d w (color_table d)
                         (take (row_size w d) (drop (y * row_size w d) (pixel_rows w h d buf))))
                 (rev [0..<h])) = map (stored_grey d) buf"
    using len by simp
qed

lemma header_fields:
  "take 2 (BMPEncoder_encode w h d buf) = [66, 77]"
  "take 4 (drop 10 (BMPEncoder_encode w h d buf)) = le32 (54 + length (color_table d))"
  "take 4 (drop 18 (BMPEncoder_encode w h d buf)) = le32 w"
  "take 4 (drop 22 (BMPEncoder_encode w h d buf)) = le32 h"
  "take 2 (drop 28 (BMPEncoder_encode w h d buf)) = le16 d"
  "drop 54 (BMPEncoder_encode w h d buf) = color_table d @ pixel_rows w h d buf"
  by (simp_all add: BMPEncoder_encode_def file_header_def info_header_def)

lemma bmp_roundtrip:
  assumes d: "d = 1 \<or> d = 2 \<or> d = 4 \<or> d = 8 \<or> d = 24"
    and w: "w < 2147483648" and h: "h < 2147483648"
    and v: "valid_buffer w h d buf"
  shows "bmp_decode (BMPEncoder_encode w h d buf) = Some (w, h, d, map (stored_grey d) buf)"
proof -
  let ?f = "BMPEncoder_encode w h d buf"
  have l: "\<not> length ?f < 54"
    by (simp add: BMPEncoder_encode_def length_file_header length_info_header)
  have ct: "length (color_table d) \<le> 1024"
    using d by (auto simp: length_color_table)
  have off: "from_le (take 4 (drop 10 ?f)) = 54 + length (color_table d)"
    unfolding header_fields using ct by (intro from_le_le32) simp
  have fw: "from_le (take 4 (drop 18 ?f)) = w"
    unfolding header_fields using w by (intro from_le_le32) simp
  have fh: "from_le (take 4 (drop 22 ?f)) = h"
    unfolding header_fields using h by (intro from_le_le32) simp
  have fd: "from_le (take 2 (drop 28 ?f)) = d"
    unfolding header_fields using d by (intro from_le_le16) auto
  have tb: "take (54 + length (color_table d) - 54) (drop 54 ?f) = color_table d"
    by (simp add: header_fields)
  have "drop (54 + length (color_table d)) ?f = drop (length (color_table d)) (drop 54 ?f)"
    by (simp add: add.commute)
  then have px: "drop (54 + length (color_table d)) ?f = pixel_rows w h d buf"
    by (simp add: header_fields)
  from d have dd: "\<not> (d \<noteq> 1 \<and> d \<noteq> 2 \<and> d \<noteq> 4 \<and> d \<noteq> 8 \<and> d \<noteq> 24)" by auto
  show ?thesis
    unfolding bmp_decode_def Let_def off fw fh fd tb px
    using l dd decode_rows [OF d v] by (simp add: header_fields)
qed

lemma row_size_bounds:
  "row_size w d mod 4 = 0" "row_size w d * 8 < w * d + 32"
  unfolding row_size_def by presburger+

text \<open>
  Claim C10, for the encoder as the specification describes it.  The file is the file
  header (14 bytes), the info header (40 bytes), for the depths up to 8 a grey colour
  table of \<open>2^d\<close> four-byte entries, and the pixel rows from the last row of the buffer to
  the first.  Every stored row has \<open>row_size w d\<close> bytes, the least multiple of 4 that holds
  \<open>w * d\<close> bits; for width 3 at depth 24 that is 12.  A 24-bit pixel is stored as its three
  bytes in reverse order.  For a depth among 1, 2, 4, 8 and 24 and a buffer of bytes of the
  right length, the reader recovers width, height, depth and for every sample the grey it
  was stored as: the sample itself at depths 8 and 24, and at depth 1 for black (0) and
  white (255); so a buffer whose samples are greys of the table is recovered exactly.
\<close>

theorem bitmap_layout_roundtrip:
  "BMPEncoder_encode w h d buf
      = file_header w h d @ info_header w h d @ color_table d @ pixel_rows w h d buf
   \<and> length (file_header w h d) = 14 \<and> length (info_header w h d) = 40
   \<and> length (color_table d) = (if d \<le> 8 then 4 * 2 ^ d else 0)
   \<and> pixel_rows w h d buf
       = concat (map (\<lambda>y. encode_row d w
                          (take (samples_per_row w d) (drop (y * samples_per_row w d) buf)))
                   (rev [0..<h]))
   \<and> (length row = samples_per_row w d \<longrightarrow> length (encode_row d w row) = row_size w d)
   \<and> row_size w d mod 4 = 0 \<and> w * d \<le> row_size w d * 8 \<and> row_size w d * 8 < w * d + 32
   \<and> row_size 3 24 = 12
   \<and> encode_row 24 1 [r, g, b] = [b, g, r, 0]
   \<and> ((d = 1 \<or> d = 2 \<or> d = 4 \<or> d = 8 \<or> d = 24) \<and> w < 2147483648 \<and> h < 2147483648
        \<and> valid_buffer w h d buf \<longrightarrow>
        bmp_decode (BMPEncoder_encode w h d buf) = Some (w, h, d, map (stored_grey d) buf))
   \<and> (\<forall>v. v < 256 \<longrightarrow> stored_grey 8 v = v \<and> stored_grey 24 v = v)
   \<and> stored_grey 1 0 = 0 \<and> stored_grey 1 255 = 255
   \<and> ((d = 1 \<or> d = 2 \<or> d = 4 \<or> d = 8 \<or> d = 24) \<and> w < 2147483648 \<and> h < 2147483648
        \<and> valid_buffer w h d buf \<and> list_all (\<lambda>v. stored_grey d v = v) buf \<longrightarrow>
        bmp_decode (BMPEncoder_encode w h d buf) = Some (w, h, d, buf))"
proof -
  have a: "length row = samples_per_row w d \<longrightarrow> length (encode_row d w row) = row_size w d"
    using length_encode_row by blast
  have b: "row_size 3 24 = 12" by (simp add: row_size_def)
  have c: "encode_row 24 1 [r, g, b] = [b, g, r, 0]"
    by (simp add: encode_row_def row_size_def)
  have e: "(d = 1 \<or> d = 2 \<or> d = 4 \<or> d = 8 \<or> d = 24) \<and> w < 2147483648 \<and> h < 2147483648
        \<and> valid_buffer w h d buf \<longrightarrow>
        bmp_decode (BMPEncoder_encode w h d buf) = Some (w, h, d, map (stored_grey d) buf)"
    using bmp_roundtrip by blast
  have g: "\<forall>v. v < 256 \<longrightarrow> stored_grey 8 v = v \<and> stored_grey 24 v = v"
    by (simp add: stored_grey_def grey_level_def index_of_def)
  have k: "stored_grey 1 0 = 0" "stored_grey 1 255 = 255"
    by (simp_all add: stored_grey_def grey_level_def index_of_def)
  have m: "map (stored_grey d) buf = buf" if "list_all (\<lambda>v. stored_grey d v = v) buf"
    using that by (induction buf) simp_all
  have f: "(d = 1 \<or> d = 2 \<or> d = 4 \<or> d = 8 \<or> d = 24) \<and> w < 2147483648 \<and> h < 2147483648
        \<and> valid_buffer w h d buf \<and> list_all (\<lambda>v. stored_grey d v = v) buf \<longrightarrow>
        bmp_decode (BMPEncoder_encode w h d buf) = Some (w, h, d, buf)"
    using e m by auto
  show ?thesis
    by (intro conjI a b c e f g k row_size_bounds row_size_fits length_file_header
          length_info_header length_color_table)
       (simp_all add: BMPEncoder_encode_def pixel_rows_def)
qed

theorem bitmap_layout_roundtrip_witness:
  "valid_buffer 3 2 1 [255, 0, 255, 0, 0, 255]
   \<and> list_all (\<lambda>v. stored_grey 1 v = v) [255, 0, 255, 0, 0, 255]
   \<and> bmp_decode (BMPEncoder_encode 3 2 1 [255, 0, 255, 0, 0, 255])
       = Some (3, 2, 1, [255, 0, 255, 0, 0, 255])
   \<and> pixel_rows 3 2 1 [255, 0, 255, 0, 0, 255] = [32, 0, 0, 0, 160, 0, 0, 0]
   \<and> length (encode_row 24 3 [1, 2, 3, 4, 5, 6, 7, 8, 9]) = 12
   \<and> encode_row 24 3 [1, 2, 3, 4, 5, 6, 7, 8, 9] = [3, 2, 1, 6, 5, 4, 9, 8, 7, 0, 0, 0]"
proof -
  have v: "valid_buffer 3 2 1 [255, 0, 255, 0, 0, 255]"
    by (simp add: valid_buffer_def samples_per_row_def)
  have s: "list_all (\<lambda>v. stored_grey 1 v = v) [255, 0, 255, 0, 0, 255]"
    by (simp add: stored_grey_def grey_level_def index_of_def)
  have l: "length [1, 2, 3, 4, 5, 6, 7, 8, 9 :: nat] = samples_per_row 3 24"
    by (simp add: samples_per_row_def)
  have p: "pixel_rows 3 2 1 [255, 0, 255, 0, 0, 255] = [32, 0, 0, 0, 160, 0, 0, 0]"
    by code_simp
  have r: "encode_row 24 3 [1, 2, 3, 4, 5, 6, 7, 8, 9] = [3, 2, 1, 6, 5, 4, 9, 8, 7, 0, 0, 0]"
    by code_simp
  note t1 = bitmap_layout_roundtrip [of 3 2 1 "[255, 0, 255, 0, 0, 255]"]
  note t2 = bitmap_layout_roundtrip [of 3 h 24 buf "[1, 2, 3, 4, 5, 6, 7, 8, 9]"]
  have pre: "((1::nat) = 1 \<or> (1::nat) = 2 \<or> (1::nat) = 4 \<or> (1::nat) = 8 \<or> (1::nat) = 24)
      \<and> (3::nat) < 2147483648 \<and> (2::nat) < 2147483648
      \<and> valid_buffer 3 2 1 [255, 0, 255, 0, 0, 255]
      \<and> list_all (\<lambda>v. stored_grey 1 v = v) [255, 0, 255, 0, 0, 255]"
    using v s by simp
  from t1 pre have d: "bmp_decode (BMPEncoder_encode 3 2 1 [255, 0, 255, 0, 0, 255])
       = Some (3, 2, 1, [255, 0, 255, 0, 0, 255])"
    by blast
  from t2 l have "length (encode_row 24 3 [1, 2, 3, 4, 5, 6, 7, 8, 9]) = row_size 3 24"
    by blast
  moreover from t2 have "row_size 3 24 = 12" by blast
  ultimately show ?thesis using v s d p r by simp
qed

end
